theory Spec2Isabelle
  imports Complex_Main
begin

section \<open>The walk-forward backtest of \<open>src/callbacks/backtest.py\<close>: helpers\<close>

text \<open>
  Conventions of the embedding.
  \<^item> Python integers are \<open>int\<close>. The arrays built by \<open>closed_arange\<close> hold
    integers; the integer dtype is taken wide enough for the values (the sliders of the
    application keep them between 10 and 210), so no wrap-around is modelled.
  \<^item> Python floats are \<open>real\<close> where a result does not hang on the rounding of the
    double arithmetic (the overlap factor, the time interval). The window length, which the
    source rounds from a double quotient, is not computed by the embedding: it is taken
    from the collaborators (see \<open>window_len_double\<close> below).
  \<^item> Every exception the source can raise is a value \<open>Inl e\<close> of \<open>py_error + 'a\<close>.
\<close>

datatype py_error = IndexError | ZeroDivisionError | ValueError | UnboundLocalError

subsection \<open>Python and NumPy primitives used by the source\<close>

text \<open>\<open>xs[i]\<close> on a Python list or a one-dimensional array: a negative index counts from
  the end, an index out of range raises \<open>IndexError\<close>.\<close>

definition py_index :: "'a list \<Rightarrow> int \<Rightarrow> py_error + 'a" where
  "py_index xs i =
     (if 0 \<le> i \<and> i < int (length xs) then Inr (xs ! nat i)
      else if i < 0 \<and> - int (length xs) \<le> i then Inr (xs ! nat (int (length xs) + i))
      else Inl IndexError)"

text \<open>\<open>numpy.arange(start, stop, step)\<close> on integers: the length is
  \<open>ceil((stop - start) / step)\<close>, an empty array when that is not positive, and element
  \<open>k\<close> is \<open>start + k * step\<close>. A zero step makes the length computation divide by
  zero.\<close>

definition np_arange :: "int \<Rightarrow> int \<Rightarrow> int \<Rightarrow> py_error + int list" where
  "np_arange start stop step =
     (if step = 0 then Inl ZeroDivisionError
      else Inr (map (\<lambda>k. start + int k * step) [0 ..< nat (- ((start - stop) div step))]))"

text \<open>\<open>round(x)\<close> on a float: to the nearest integer, a tie to the even neighbour.\<close>

definition py_round :: "real \<Rightarrow> int" where
  "py_round x =
     (let f = \<lfloor>x\<rfloor>; r = x - of_int f
      in if r < 1 / 2 then f else if 1 / 2 < r then f + 1 else if even f then f else f + 1)"

text \<open>\<open>round(x, ndigits)\<close>: the same rounding at \<open>ndigits\<close> decimal places.\<close>

definition py_round_ndigits :: "real \<Rightarrow> nat \<Rightarrow> real" where
  "py_round_ndigits x ndigits = of_int (py_round (x * 10 ^ ndigits)) / 10 ^ ndigits"

text \<open>\<open>a / b\<close> on numbers: a zero divisor raises \<open>ZeroDivisionError\<close>.\<close>

definition py_truediv :: "real \<Rightarrow> real \<Rightarrow> py_error + real" where
  "py_truediv a b = (if b = 0 then Inl ZeroDivisionError else Inr (a / b))"

text \<open>\<open>int(s)\<close> on an ASCII string: surrounding whitespace is stripped, one sign is
  allowed, then decimal digits follow, single underscores allowed between digits; anything
  else raises \<open>ValueError\<close>.\<close>

definition digit_value :: "char \<Rightarrow> nat option" where
  "digit_value c =
     (let k = (of_char c :: nat) in if 48 \<le> k \<and> k \<le> 57 then Some (k - 48) else None)"

definition is_space :: "char \<Rightarrow> bool" where
  "is_space c = (let k = (of_char c :: nat) in (9 \<le> k \<and> k \<le> 13) \<or> (28 \<le> k \<and> k \<le> 32))"

fun py_digits :: "nat \<Rightarrow> string \<Rightarrow> nat option" where
  "py_digits acc [] = Some acc"
| "py_digits acc (c # cs) =
     (case digit_value c of
        Some v \<Rightarrow> py_digits (10 * acc + v) cs
      | None \<Rightarrow>
          if c = CHR ''_'' then
            (case cs of
               [] \<Rightarrow> None
             | d # ds \<Rightarrow>
                 (case digit_value d of
                    Some v \<Rightarrow> py_digits (10 * acc + v) ds
                  | None \<Rightarrow> None))
          else None)"

definition py_int :: "string \<Rightarrow> py_error + int" where
  "py_int s =
     (let t = rev (dropWhile is_space (rev (dropWhile is_space s)));
          (sign, body) =
            (case t of
               [] \<Rightarrow> (1, [])
             | c # cs \<Rightarrow>
                 if c = CHR ''-'' then (- 1, cs) else if c = CHR ''+'' then (1, cs) else (1, t))
      in case body of
           [] \<Rightarrow> Inl ValueError
         | d # ds \<Rightarrow>
             (case digit_value d of
                None \<Rightarrow> Inl ValueError
              | Some v \<Rightarrow>
                  (case py_digits v ds of
                     None \<Rightarrow> Inl ValueError
                   | Some m \<Rightarrow> Inr (sign * int m))))"

text \<open>\<open>itertools.combinations(xs, 2)\<close>: the pairs \<open>(xs[i], xs[j])\<close> with \<open>i < j\<close>, in
  lexicographic order of the positions.\<close>

fun combinations2 :: "'a list \<Rightarrow> ('a \<times> 'a) list" where
  "combinations2 [] = []"
| "combinations2 (x # xs) = map (Pair x) xs @ combinations2 xs"

text \<open>Sequencing of computations that may raise.\<close>

definition bind_err :: "'e + 'a \<Rightarrow> ('a \<Rightarrow> 'e + 'b) \<Rightarrow> 'e + 'b" where
  "bind_err m f = (case m of Inl e \<Rightarrow> Inl e | Inr x \<Rightarrow> f x)"

fun collect :: "('e + 'a) list \<Rightarrow> 'e + 'a list" where
  "collect [] = Inr []"
| "collect (m # ms) =
     (case m of
        Inl e \<Rightarrow> Inl e
      | Inr x \<Rightarrow> (case collect ms of Inl e \<Rightarrow> Inl e | Inr xs \<Rightarrow> Inr (x # xs)))"

subsection \<open>\<open>overlap_factor\<close> (lines 23--28)\<close>

text \<open>
  \<^verbatim>\<open>
  def overlap_factor(nwindows):
      factors = [.375, .5, .56, .6, .625, .64]
      if nwindows < 8:
          return factors[nwindows - 2]
      else:
          return (13 / (9 * pi)) * atan(nwindows)
  \<close>
\<close>

definition overlap_factor :: "int \<Rightarrow> py_error + real" where
  "overlap_factor nwindows =
     (let factors = [0.375, 0.5, 0.56, 0.6, 0.625, 0.64]
      in if nwindows < 8 then py_index factors (nwindows - 2)
         else Inr ((13 / (9 * pi)) * arctan (real_of_int nwindows)))"

subsection \<open>\<open>closed_arange\<close> (lines 31--36)\<close>

text \<open>
  \<^verbatim>\<open>
  def closed_arange(start, stop, step, dtype=None):
      array = np.arange(start, stop, step, dtype=dtype)
      if array[-1] + step <= stop:
          end_value = np.array(stop, ndmin=1, dtype=dtype)
          array = np.concatenate([array, end_value])
      return array
  \<close>
\<close>

definition closed_arange :: "int \<Rightarrow> int \<Rightarrow> int \<Rightarrow> py_error + int list" where
  "closed_arange start stop step =
     (case np_arange start stop step of
        Inl e \<Rightarrow> Inl e
      | Inr array \<Rightarrow>
          (case py_index array (- 1) of
             Inl e \<Rightarrow> Inl e
           | Inr last_value \<Rightarrow>
               if last_value + step \<le> stop then Inr (array @ [stop]) else Inr array))"

section \<open>The callback \<open>perform_backtest\<close> (lines 61--246)\<close>

subsection \<open>Values handed to the libraries\<close>

text \<open>The keyword arguments of \<open>rolling_split\<close> (lines 73--74). \<open>set_lens\<close> is the
  one-element tuple \<open>(insample / 100,)\<close>.\<close>

record window_kwargs =
  wk_n :: int
  wk_set_lens :: "real list"
  wk_window_len :: int

text \<open>The \<open>freq\<close> argument (lines 79--82): either the literal \<open>'1d'\<close> or the string
  \<open>"{}{}".format(x, 'm')\<close>, kept as the number \<open>x\<close> and the unit.\<close>

datatype time_interval = Literal string | Formatted real string

text \<open>The keyword arguments of \<open>Portfolio.from_signals\<close> (line 84).\<close>

record pf_kwargs =
  direction :: string
  freq :: time_interval
  init_cash :: int
  fees :: real
  slippage :: real

text \<open>Parameter arrays: \<open>closed_arange\<close> gives a one-dimensional array; the RSI grid (a
  list of two lists) and the result of \<open>get_optimal_parameters\<close> have two rows. Indexing
  the first gives a number, indexing the second gives a row.\<close>

datatype params = Array1 "int list" | Array2 "int list list"

datatype arg = Scalar int | Row "int list"

definition params_index :: "params \<Rightarrow> int \<Rightarrow> py_error + arg" where
  "params_index ps i =
     (case ps of
        Array1 xs \<Rightarrow> (case py_index xs i of Inl e \<Rightarrow> Inl e | Inr x \<Rightarrow> Inr (Scalar x))
      | Array2 rows \<Rightarrow> (case py_index rows i of Inl e \<Rightarrow> Inl e | Inr r \<Rightarrow> Inr (Row r)))"

text \<open>
  The indicator, signal and portfolio objects of vectorbt are represented by the calls that
  build them, over an abstract type \<open>'p\<close> of price frames:
  \<^item> \<open>Talib_run name price timeperiod per_column\<close> is
    \<open>vbt.IndicatorFactory.from_talib(name).run(price, timeperiod, per_column=...)\<close>;
  \<^item> \<open>Talib_run_combs name price periods k\<close> is component \<open>k\<close> of the pair returned by
    \<open>.run_combs(price, periods)\<close>;
  \<^item> \<open>Real_crossed_above ind other\<close> is \<open>ind.real_crossed_above(other)\<close>, where
    \<open>other\<close> is the \<open>.real\<close> of an indicator or an array of thresholds;
  \<^item> \<open>From_signals price entries exits kw\<close> is
    \<open>vbt.Portfolio.from_signals(price, entries, exits, **kw)\<close>.
  What the library computes from them is a parameter of the model (see \<open>ext\<close> below).
\<close>

datatype 'p indicator =
  Talib_run string 'p arg bool
| Talib_run_combs string 'p params nat

datatype 'p operand = Indicator_real "'p indicator" | Values arg

datatype 'p signals =
  Real_crossed_above "'p indicator" "'p operand"
| Real_crossed_below "'p indicator" "'p operand"

datatype 'p portfolio =
  From_signals (pf_price: 'p) (pf_entries: "'p signals") (pf_exits: "'p signals")
    (pf_config: pf_kwargs)

text \<open>A metric series (the result of \<open>deep_getattr\<close>): one row per portfolio column, in
  column order, labelled by the first parameter, the second parameter and the window index
  \<open>split_idx\<close>. Metric values are finite numbers; NaN is not modelled.\<close>

type_synonym label = "int \<times> int \<times> nat"

type_synonym metric_series = "(label \<times> real) list"

definition split_idx :: "label \<times> real \<Rightarrow> nat" where
  "split_idx r = snd (snd (fst r))"

text \<open>The canonical order of the parameter grid: by the first parameter, then by the
  second, lowest values first.\<close>

definition grid_less :: "int \<times> int \<Rightarrow> int \<times> int \<Rightarrow> bool" where
  "grid_less p q \<longleftrightarrow> fst p < fst q \<or> (fst p = fst q \<and> snd p < snd q)"

definition combination :: "label \<times> real \<Rightarrow> int \<times> int" where
  "combination r = (fst (fst r), fst (snd (fst r)))"

subsection \<open>\<open>get_optimal_parameters\<close> (lines 142--150)\<close>

text \<open>\<open>idxmax\<close> and \<open>idxmin\<close> of a series: the label of the first occurrence of the
  largest (smallest) value; an empty series raises \<open>ValueError\<close>.\<close>

fun first_best :: "(real \<Rightarrow> real \<Rightarrow> bool) \<Rightarrow> 'l \<times> real \<Rightarrow> ('l \<times> real) list \<Rightarrow> 'l \<times> real" where
  "first_best better b [] = b"
| "first_best better b (r # rs) =
     first_best better (if better (snd r) (snd b) then r else b) rs"

definition idxmax :: "('l \<times> real) list \<Rightarrow> py_error + 'l" where
  "idxmax rows =
     (case rows of [] \<Rightarrow> Inl ValueError
      | r # rs \<Rightarrow> Inr (fst (first_best (\<lambda>x y. y < x) r rs)))"

definition idxmin :: "('l \<times> real) list \<Rightarrow> py_error + 'l" where
  "idxmin rows =
     (case rows of [] \<Rightarrow> Inl ValueError
      | r # rs \<Rightarrow> Inr (fst (first_best (\<lambda>x y. x < y) r rs)))"

text \<open>\<open>groupby("split_idx")\<close>: the groups are the windows, in increasing order of the
  window index; each group keeps the order of the series.\<close>

definition window_keys :: "metric_series \<Rightarrow> nat list" where
  "window_keys rows = sort (remdups (map split_idx rows))"

definition window_rows :: "nat \<Rightarrow> metric_series \<Rightarrow> metric_series" where
  "window_rows k rows = filter (\<lambda>r. split_idx r = k) rows"

definition groupby_apply ::
  "(metric_series \<Rightarrow> py_error + label) \<Rightarrow> metric_series \<Rightarrow> py_error + label list" where
  "groupby_apply f rows = collect (map (\<lambda>k. f (window_rows k rows)) (window_keys rows))"

text \<open>\<open>series[labels]\<close>: the rows carrying each of the labels, in the order of the
  labels.\<close>

definition select_labels :: "metric_series \<Rightarrow> label list \<Rightarrow> metric_series" where
  "select_labels rows labels = concat (map (\<lambda>l. filter (\<lambda>r. fst r = l) rows) labels)"

text \<open>
  \<^verbatim>\<open>
  def get_optimal_parameters(accessed_metric):
      if selected_metric == 'max_drawdown':
          indexed_parameters = accessed_metric[accessed_metric.groupby("split_idx").idxmin()].index
      else:
          indexed_parameters = accessed_metric[accessed_metric.groupby("split_idx").idxmax()].index
      first_parameters = indexed_parameters.get_level_values(indexed_parameters.names[0]).to_numpy()
      second_parameters = indexed_parameters.get_level_values(indexed_parameters.names[1]).to_numpy()
      return np.array([first_parameters, second_parameters])
  \<close>
\<close>

definition get_optimal_parameters :: "string \<Rightarrow> metric_series \<Rightarrow> py_error + params" where
  "get_optimal_parameters selected_metric accessed_metric =
     (case (if selected_metric = ''max_drawdown''
            then groupby_apply idxmin accessed_metric
            else groupby_apply idxmax accessed_metric) of
        Inl e \<Rightarrow> Inl e
      | Inr labels \<Rightarrow>
          (let indexed_parameters = map fst (select_labels accessed_metric labels);
               first_parameters = map fst indexed_parameters;
               second_parameters = map (\<lambda>l. fst (snd l)) indexed_parameters
           in Inr (Array2 [first_parameters, second_parameters])))"

subsection \<open>The collaborators of the callback\<close>

text \<open>
  What lies outside \<open>backtest.py\<close> is a parameter of the model, over abstract types of
  caches \<open>'c\<close>, fetched data frames \<open>'df\<close>, price frames \<open>'p\<close>, date frames \<open>'d\<close> and
  rendered tables \<open>'t\<close>:
  \<^item> \<open>cached_df\<close> is \<open>data.cached_df(cache, timeframe, asset, start, end)\<close> of the
    module \<open>src/data/data.py\<close>; it may raise and may store into the cache;
  \<^item> \<open>df_len\<close> is \<open>len(df)\<close>; \<open>close_postgres\<close> and \<open>close_yfinance\<close> are the two
    extractions of the close prices (lines 66--67 and 69--70);
  \<^item> \<open>window_len_double len_df nwindows\<close> is the value of
    \<open>round(len(df) / ((1 - overlap_factor(nwindows)) * nwindows))\<close> in the double
    arithmetic of the source, for the arguments on which the expression does not raise;
  \<^item> \<open>rolling_split\<close> is \<open>close.vbt.rolling_split(**window_kwargs, plot=False)\<close>;
  \<^item> \<open>deep_getattr\<close> is \<open>pf.deep_getattr(selected_metric)\<close>: the simulation of a
    portfolio and the series of one of its metrics;
  \<^item> \<open>cache_set\<close> is \<open>cache.set(key, pf.dumps(), timeout=...)\<close>, whose result the source
    ignores;
  \<^item> \<open>render_tables\<close> stands for lines 169--246, which build the three tables of the
    report from the number of windows, the two column lists, the two parameter arrays, the
    portfolios \<open>pf_outsample\<close> and \<open>pf_outsample_optimized\<close> and \<open>out_dates\<close>, and from
    nothing else.
\<close>

record ('c, 'df, 'p, 'd, 't) ext =
  cached_df :: "'c \<Rightarrow> string \<Rightarrow> string \<Rightarrow> string \<Rightarrow> string \<Rightarrow> py_error + 'df \<times> 'c"
  df_len :: "'df \<Rightarrow> nat"
  close_postgres :: "'df \<Rightarrow> 'p"
  close_yfinance :: "'df \<Rightarrow> 'p"
  window_len_double :: "nat \<Rightarrow> int \<Rightarrow> int"
  rolling_split :: "'p \<Rightarrow> window_kwargs \<Rightarrow> py_error + ('p \<times> 'd) \<times> ('p \<times> 'd)"
  deep_getattr :: "'p portfolio \<Rightarrow> string \<Rightarrow> py_error + metric_series"
  cache_set :: "'c \<Rightarrow> string \<Rightarrow> 'p portfolio \<Rightarrow> nat \<Rightarrow> 'c"
  render_tables ::
    "int \<Rightarrow> string list \<Rightarrow> string list \<Rightarrow> params \<Rightarrow> params \<Rightarrow> 'p portfolio \<Rightarrow> 'p portfolio \<Rightarrow> 'd
      \<Rightarrow> py_error + 't"

subsection \<open>Window arguments, time interval and trading configuration (lines 72--84)\<close>

text \<open>
  \<^verbatim>\<open>
  window_kwargs = dict(n=nwindows, set_lens=(insample / 100,),
                       window_len=round(len(df) / ((1 - overlap_factor(nwindows)) * nwindows)))
  \<close>
  \<open>len_df\<close> is \<open>len(df)\<close>. The expression raises what \<open>overlap_factor\<close> raises, and
  \<open>ZeroDivisionError\<close> when the divisor is zero; otherwise its value is the rounded
  double quotient \<open>window_len_double\<close>.
\<close>

definition make_window_kwargs ::
  "('c, 'df, 'p, 'd, 't) ext \<Rightarrow> nat \<Rightarrow> int \<Rightarrow> int \<Rightarrow> py_error + window_kwargs" where
  "make_window_kwargs ext len_df nwindows insample =
     bind_err (overlap_factor nwindows) (\<lambda>overlap.
     bind_err (py_truediv (real len_df) ((1 - overlap) * real_of_int nwindows)) (\<lambda>quotient.
       Inr \<lparr>wk_n = nwindows, wk_set_lens = [real_of_int insample / 100],
            wk_window_len = window_len_double ext len_df nwindows\<rparr>))"

text \<open>
  \<^verbatim>\<open>
  trading_day_conversion = 24 / 6.5
  if selected_timeframe == '1d':
      time_interval = '1d'
  else:
      time_interval = "{}{}".format(round(int(selected_timeframe[:-1]) * trading_day_conversion, 4), 'm')
  \<close>
\<close>

definition trading_day_conversion :: real where
  "trading_day_conversion = 24 / 6.5"

definition make_time_interval :: "string \<Rightarrow> py_error + time_interval" where
  "make_time_interval selected_timeframe =
     (if selected_timeframe = ''1d'' then Inr (Literal ''1d'')
      else bind_err (py_int (butlast selected_timeframe)) (\<lambda>v.
             Inr (Formatted (py_round_ndigits (real_of_int v * trading_day_conversion) 4) ''m'')))"

text \<open>
  \<^verbatim>\<open>
  pf_kwargs = dict(direction=selected_direction, freq=time_interval, init_cash=100, fees=0.000, slippage=0.000)
  \<close>
\<close>

definition make_pf_kwargs :: "string \<Rightarrow> time_interval \<Rightarrow> pf_kwargs" where
  "make_pf_kwargs selected_direction time_interval =
     \<lparr>direction = selected_direction, freq = time_interval, init_cash = 100, fees = 0.000,
      slippage = 0.000\<rparr>"

subsection \<open>Strategy branches (lines 86--139)\<close>

record strategy_env =
  columns_list :: "string list"
  optimal_columns_list :: "string list"
  parameter_values :: params

text \<open>The assignments of each branch. No branch is taken for another strategy name, and
  the variables stay unbound (\<open>None\<close>).\<close>

definition strategy_setup :: "string \<Rightarrow> int list \<Rightarrow> py_error + strategy_env option" where
  "strategy_setup selected_strategy selected_range =
     (if selected_strategy = ''SMA Crossover'' then
        bind_err (py_index selected_range 0) (\<lambda>lo.
        bind_err (py_index selected_range 1) (\<lambda>hi.
        bind_err (closed_arange lo hi 10) (\<lambda>values.
          Inr (Some \<lparr>columns_list = [''Fast SMA Period'', ''Slow SMA Period''],
                     optimal_columns_list =
                       [''Window'', ''Optimal Fast SMA Period'', ''Optimal Slow SMA Period'',
                        ''Optimal Return [%]'', ''Return [%]'', ''Average Return [%]'',
                        ''Benchmark Return [%]''],
                     parameter_values = Array1 values\<rparr>))))
      else if selected_strategy = ''EMA Crossover'' then
        bind_err (py_index selected_range 0) (\<lambda>lo.
        bind_err (py_index selected_range 1) (\<lambda>hi.
        bind_err (closed_arange lo hi 10) (\<lambda>values.
          Inr (Some \<lparr>columns_list = [''Fast EMA Period'', ''Slow EMA Period''],
                     optimal_columns_list =
                       [''Window'', ''Optimal Fast EMA Period'', ''Optimal Slow EMA Period'',
                        ''Optimal Return [%]'', ''Return [%]'', ''Average Return [%]'',
                        ''Benchmark Return [%]''],
                     parameter_values = Array1 values\<rparr>))))
      else if selected_strategy = ''RSI'' then
        bind_err (py_index selected_range 0) (\<lambda>lo.
        bind_err (py_index selected_range 1) (\<lambda>hi.
        bind_err (closed_arange lo hi 2) (\<lambda>raw_parameter_values.
          let parameter_combinations = combinations2 raw_parameter_values;
              parameter_values_entries = map fst parameter_combinations;
              parameter_values_exits = map snd parameter_combinations
          in Inr (Some \<lparr>columns_list = [''RSI Entry Value'', ''RSI Exit Value''],
                        optimal_columns_list =
                          [''Window'', ''Optimal RSI Entry Value'', ''Optimal RSI Exit Value'',
                           ''Optimal Return [%]'', ''Return [%]'', ''Average Return [%]'',
                           ''Benchmark Return [%]''],
                        parameter_values =
                          Array2 [parameter_values_entries, parameter_values_exits]\<rparr>))))
      else Inr None)"

text \<open>The three closures \<open>backtest_windows\<close>; \<open>kw\<close> is the captured \<open>pf_kwargs\<close>.\<close>

definition backtest_windows_sma ::
  "pf_kwargs \<Rightarrow> 'p \<Rightarrow> params \<Rightarrow> bool \<Rightarrow> py_error + 'p portfolio" where
  "backtest_windows_sma kw price sma_periods all_periods =
     (if all_periods then
        (let fast_sma = Talib_run_combs ''SMA'' price sma_periods 0;
             slow_sma = Talib_run_combs ''SMA'' price sma_periods 1;
             entries = Real_crossed_above fast_sma (Indicator_real slow_sma);
             exits = Real_crossed_below fast_sma (Indicator_real slow_sma)
         in Inr (From_signals price entries exits kw))
      else
        bind_err (params_index sma_periods 0) (\<lambda>fast_periods.
        bind_err (params_index sma_periods 1) (\<lambda>slow_periods.
          let fast_sma = Talib_run ''SMA'' price fast_periods True;
              slow_sma = Talib_run ''SMA'' price slow_periods True;
              entries = Real_crossed_above fast_sma (Indicator_real slow_sma);
              exits = Real_crossed_below fast_sma (Indicator_real slow_sma)
          in Inr (From_signals price entries exits kw))))"

definition backtest_windows_ema ::
  "pf_kwargs \<Rightarrow> 'p \<Rightarrow> params \<Rightarrow> bool \<Rightarrow> py_error + 'p portfolio" where
  "backtest_windows_ema kw price ema_periods all_periods =
     (if all_periods then
        (let fast_ema = Talib_run_combs ''EMA'' price ema_periods 0;
             slow_ema = Talib_run_combs ''EMA'' price ema_periods 1;
             entries = Real_crossed_above fast_ema (Indicator_real slow_ema);
             exits = Real_crossed_below fast_ema (Indicator_real slow_ema)
         in Inr (From_signals price entries exits kw))
      else
        bind_err (params_index ema_periods 0) (\<lambda>fast_periods.
        bind_err (params_index ema_periods 1) (\<lambda>slow_periods.
          let fast_ema = Talib_run ''EMA'' price fast_periods True;
              slow_ema = Talib_run ''EMA'' price slow_periods True;
              entries = Real_crossed_above fast_ema (Indicator_real slow_ema);
              exits = Real_crossed_below fast_ema (Indicator_real slow_ema)
          in Inr (From_signals price entries exits kw))))"

definition backtest_windows_rsi ::
  "pf_kwargs \<Rightarrow> 'p \<Rightarrow> params \<Rightarrow> bool \<Rightarrow> py_error + 'p portfolio" where
  "backtest_windows_rsi kw price entry_exit_values dummy_variable =
     (let rsi = Talib_run ''RSI'' price (Scalar 14) False
      in bind_err (params_index entry_exit_values 0) (\<lambda>entry_values.
         bind_err (params_index entry_exit_values 1) (\<lambda>exit_values.
           let entries = Real_crossed_below rsi (Values entry_values);
               exits = Real_crossed_above rsi (Values exit_values)
           in Inr (From_signals price entries exits kw))))"

text \<open>The closure bound by the branch taken; calling it when no branch was taken raises
  \<open>UnboundLocalError\<close>.\<close>

definition backtest_windows ::
  "string \<Rightarrow> pf_kwargs \<Rightarrow> 'p \<Rightarrow> params \<Rightarrow> bool \<Rightarrow> py_error + 'p portfolio" where
  "backtest_windows selected_strategy kw price ps flag =
     (if selected_strategy = ''SMA Crossover'' then backtest_windows_sma kw price ps flag
      else if selected_strategy = ''EMA Crossover'' then backtest_windows_ema kw price ps flag
      else if selected_strategy = ''RSI'' then backtest_windows_rsi kw price ps flag
      else Inl UnboundLocalError)"

subsection \<open>Lines 65--75: the close prices and the window split\<close>

text \<open>\<open>data_type\<close> is \<open>config.data_type\<close>. When it is neither \<open>'postgres'\<close> nor
  \<open>'yfinance'\<close> the variable \<open>close\<close> stays unbound, and its use on line 75 raises.
  \<^verbatim>\<open>
  if config.data_type == 'postgres':
      close = df.select(pl.col(['date', 'close'])).to_pandas()
      close = close.set_index('date')
  elif config.data_type == 'yfinance':
      close = df['close']
      close = close.astype({'close': 'double'})
  window_kwargs = dict(...)
  (in_price, in_dates), (out_price, out_dates) = close.vbt.rolling_split(**window_kwargs, plot=False)
  \<close>
\<close>

definition split_windows ::
  "('c, 'df, 'p, 'd, 't) ext \<Rightarrow> string \<Rightarrow> 'df \<Rightarrow> int \<Rightarrow> int \<Rightarrow> py_error + ('p \<times> 'd) \<times> ('p \<times> 'd)" where
  "split_windows ext data_type df nwindows insample =
     (let close =
            (if data_type = ''postgres'' then Some (close_postgres ext df)
             else if data_type = ''yfinance'' then Some (close_yfinance ext df)
             else None)
      in bind_err (make_window_kwargs ext (df_len ext df) nwindows insample) (\<lambda>window_kwargs.
           case close of
             None \<Rightarrow> Inl UnboundLocalError
           | Some c \<Rightarrow> rolling_split ext c window_kwargs))"

subsection \<open>Lines 65--139: everything before the first simulation\<close>

record ('p, 'd) prepared =
  in_price :: 'p
  in_dates :: 'd
  out_price :: 'p
  out_dates :: 'd
  kwargs :: pf_kwargs
  strategy :: "strategy_env option"

definition prepare ::
  "('c, 'df, 'p, 'd, 't) ext \<Rightarrow> string \<Rightarrow> 'df \<Rightarrow> string \<Rightarrow> int \<Rightarrow> int \<Rightarrow> string \<Rightarrow> string \<Rightarrow> int list
    \<Rightarrow> py_error + ('p, 'd) prepared" where
  "prepare ext data_type df selected_strategy nwindows insample selected_timeframe
       selected_direction selected_range =
     bind_err (split_windows ext data_type df nwindows insample) (\<lambda>split.
     bind_err (make_time_interval selected_timeframe) (\<lambda>time_interval.
     bind_err (strategy_setup selected_strategy selected_range) (\<lambda>st.
       Inr \<lparr>in_price = fst (fst split), in_dates = snd (fst split),
            out_price = fst (snd split), out_dates = snd (snd split),
            kwargs = make_pf_kwargs selected_direction time_interval,
            strategy = st\<rparr>)))"

subsection \<open>The callback\<close>

text \<open>The outputs of the callback: the three tables and the \<open>loading\<close> flag of the run
  button; with them the cache after the run and the line printed.\<close>

record ('c, 't) outcome =
  tables :: 't
  loading :: bool
  cache_after :: 'c
  printed :: string

text \<open>
  The result is a pair: the portfolios submitted to the simulator so far (also when the
  run then raises), and the error raised or the outcome.
  \<^verbatim>\<open>
  df = data.cached_df(cache, selected_timeframe, selected_asset, dates[0], dates[1])
  ...
  pf_insample = backtest_windows(in_price, parameter_values)
  outsample_parameters = get_optimal_parameters(pf_insample.deep_getattr(selected_metric))
  pf_outsample = backtest_windows(out_price, outsample_parameters, False)
  pf_outsample_optimized = backtest_windows(out_price, parameter_values)
  optimal_parameters = get_optimal_parameters(pf_outsample_optimized.deep_getattr(selected_metric))
  pickled_portfolio = pf_outsample.dumps()
  cache.set(session_id, pickled_portfolio, timeout=7200)
  print(f'stored session id: {session_id}')
  ...
  return averages_table, insample_table, outsample_table, False
  \<close>
\<close>

definition perform_backtest ::
  "('c, 'df, 'p, 'd, 't) ext \<Rightarrow> string \<Rightarrow> 'c \<Rightarrow> nat \<Rightarrow> string \<Rightarrow> string \<Rightarrow> int \<Rightarrow> int \<Rightarrow> string
    \<Rightarrow> string \<Rightarrow> string list \<Rightarrow> string \<Rightarrow> int list \<Rightarrow> string
    \<Rightarrow> 'p portfolio list \<times> (py_error + ('c, 't) outcome)" where
  "perform_backtest ext data_type cache n_clicks session_id selected_strategy nwindows insample
       selected_timeframe selected_asset dates selected_direction selected_range selected_metric =
     (case bind_err (py_index dates 0) (\<lambda>start_date.
           bind_err (py_index dates 1) (\<lambda>end_date.
             cached_df ext cache selected_timeframe selected_asset start_date end_date)) of
        Inl e \<Rightarrow> ([], Inl e)
      | Inr (df, cache1) \<Rightarrow>
     (case bind_err (prepare ext data_type df selected_strategy nwindows insample
                       selected_timeframe selected_direction selected_range) (\<lambda>env.
           case strategy env of
             None \<Rightarrow> Inl UnboundLocalError
           | Some st \<Rightarrow> Inr (env, st)) of
        Inl e \<Rightarrow> ([], Inl e)
      | Inr (env, st) \<Rightarrow>
     (case backtest_windows selected_strategy (kwargs env) (in_price env)
             (parameter_values st) True of
        Inl e \<Rightarrow> ([], Inl e)
      | Inr pf_insample \<Rightarrow>
     (case bind_err (deep_getattr ext pf_insample selected_metric)
             (get_optimal_parameters selected_metric) of
        Inl e \<Rightarrow> ([pf_insample], Inl e)
      | Inr outsample_parameters \<Rightarrow>
     (case backtest_windows selected_strategy (kwargs env) (out_price env)
             outsample_parameters False of
        Inl e \<Rightarrow> ([pf_insample], Inl e)
      | Inr pf_outsample \<Rightarrow>
     (case backtest_windows selected_strategy (kwargs env) (out_price env)
             (parameter_values st) True of
        Inl e \<Rightarrow> ([pf_insample, pf_outsample], Inl e)
      | Inr pf_outsample_optimized \<Rightarrow>
          ([pf_insample, pf_outsample, pf_outsample_optimized],
           bind_err (deep_getattr ext pf_outsample_optimized selected_metric) (\<lambda>metric.
           bind_err (get_optimal_parameters selected_metric metric) (\<lambda>optimal_parameters.
             let cache2 = cache_set ext cache1 session_id pf_outsample 7200;
                 line = ''stored session id: '' @ session_id
             in bind_err (render_tables ext nwindows (columns_list st)
                            (optimal_columns_list st) outsample_parameters optimal_parameters
                            pf_outsample pf_outsample_optimized (out_dates env)) (\<lambda>t.
                  Inr \<lparr>tables = t, loading = False, cache_after = cache2,
                       printed = line\<rparr>))))))))))"

subsection \<open>Column labels of a portfolio\<close>

text \<open>vectorbt labels the columns of a portfolio with the parameter values of its signals
  and the window index. \<open>submitted\<close> lists the parameter combinations of a portfolio, in
  column order: the thresholds paired position by position for the RSI signals, the
  two-element combinations of the periods for \<open>run_combs\<close>, and the periods paired position
  by position for \<open>run(..., per_column=True)\<close>.\<close>

fun submitted :: "'p portfolio \<Rightarrow> (int \<times> int) list" where
  "submitted (From_signals p (Real_crossed_below i (Values (Row es)))
                (Real_crossed_above j (Values (Row xs))) kw) = zip es xs"
| "submitted (From_signals p (Real_crossed_above (Talib_run_combs nm q (Array1 ps) k) other)
                exits kw) = combinations2 ps"
| "submitted (From_signals p (Real_crossed_above (Talib_run nm q (Row fs) pc)
                (Indicator_real (Talib_run nm' q' (Row ss) pc'))) exits kw) = zip fs ss"
| "submitted pf = []"

definition labels_submitted :: "('c, 'df, 'p, 'd, 't) ext \<Rightarrow> bool" where
  "labels_submitted ext \<longleftrightarrow>
     (\<forall>pf metric rows. deep_getattr ext pf metric = Inr rows \<longrightarrow>
        (\<forall>r \<in> set rows. combination r \<in> set (submitted pf)))"

subsection \<open>A concrete collaborator\<close>

text \<open>An instance of the collaborators on which the callback can be evaluated. The fetched
  frame has \<open>bars\<close> rows and a price frame is its number of columns and of rows. The
  window length is rounded from the real quotient. The splitter refuses, as the splitter of
  vectorbt does, a window length below one or above the number of rows, more windows than
  the rows leave room for, and an empty in-sample part; otherwise each window gives
  \<open>floor(set_len * window_len)\<close> in-sample rows and the rest out-of-sample. The metric of
  a column is the distance between its two parameters, and the rendered report is the pair
  of parameter arrays.\<close>

definition demo_ext :: "nat \<Rightarrow> (nat, nat, nat \<times> nat, nat, params \<times> params) ext" where
  "demo_ext bars =
     \<lparr>cached_df = (\<lambda>c tf asset start_date end_date. Inr (bars, c)),
      df_len = (\<lambda>df. df),
      close_postgres = (\<lambda>df. (1, df)),
      close_yfinance = (\<lambda>df. (1, df)),
      window_len_double = (\<lambda>len_df nwindows.
        case overlap_factor nwindows of
          Inl e \<Rightarrow> 0
        | Inr overlap \<Rightarrow> py_round (real len_df / ((1 - overlap) * real_of_int nwindows))),
      rolling_split = (\<lambda>c kw.
        case wk_set_lens kw of
          [set_len] \<Rightarrow>
            (let rows = int (snd c); w = wk_window_len kw;
                 in_rows = \<lfloor>set_len * real_of_int w\<rfloor>
             in if w < 1 \<or> rows < w \<or> rows - w + 1 < wk_n kw \<or> wk_n kw < 1 \<or> in_rows < 1
                then Inl ValueError
                else Inr (((nat (wk_n kw), nat in_rows), 0),
                          ((nat (wk_n kw), nat (w - in_rows)), 1)))
        | _ \<Rightarrow> Inl ValueError),
      deep_getattr = (\<lambda>pf metric.
        Inr (concat (map (\<lambda>(a, b). map (\<lambda>k. ((a, b, k), real_of_int (b - a)))
                                    [0 ..< fst (pf_price pf)]) (submitted pf)))),
      cache_set = (\<lambda>c key pf timeout. Suc c),
      render_tables = (\<lambda>nw cl ocl outsample_parameters optimal_parameters pf pfo d.
        Inr (outsample_parameters, optimal_parameters))\<rparr>"

section \<open>Properties\<close>

subsection \<open>\<open>closed_arange\<close>: the sequence returned and the fault\<close>

lemma ceil_div_pos:
  fixes d step :: int
  assumes "0 < step" "0 < d"
  shows "- ((- d) div step) = (if step dvd d then d div step else d div step + 1)"
proof (cases "step dvd d")
  case True
  then show ?thesis by (simp add: dvd_neg_div)
next
  case False
  then have "d mod step \<noteq> 0" by (simp add: dvd_eq_mod_eq_0)
  then have "(- d) div step = - (d div step) - 1"
    using assms by (simp add: zdiv_zminus1_eq_if)
  then show ?thesis using False by simp
qed

lemma np_arange_pos:
  assumes "0 < step" "start < stop"
  shows "np_arange start stop step =
     Inr (map (\<lambda>k. start + int k * step)
        [0 ..< (if step dvd (stop - start) then nat ((stop - start) div step) else Suc (nat ((stop - start) div step)))])"
proof -
  have "start - stop = - (stop - start)" by simp
  then have c: "- ((start - stop) div step) = (if step dvd (stop - start) then (stop - start) div step else (stop - start) div step + 1)"
    using ceil_div_pos[of step "stop - start"] assms by simp
  have nn: "0 \<le> (stop - start) div step" using assms by (simp add: pos_imp_zdiv_nonneg_iff)
  have "nat (- ((start - stop) div step)) = (if step dvd (stop - start) then nat ((stop - start) div step) else Suc (nat ((stop - start) div step)))"
    unfolding c using nn by (simp add: nat_add_distrib)
  then show ?thesis using assms by (simp add: np_arange_def)
qed

lemma np_arange_empty:
  assumes "0 < step" "stop \<le> start"
  shows "np_arange start stop step = Inr []"
proof -
  have "0 \<le> (start - stop) div step" using assms by (simp add: pos_imp_zdiv_nonneg_iff)
  then show ?thesis using assms by (simp add: np_arange_def)
qed

lemma py_index_last: "xs \<noteq> [] \<Longrightarrow> py_index xs (- 1) = Inr (last xs)"
  by (cases xs rule: rev_cases) (simp_all add: py_index_def Let_def nth_append)

lemma py_index_Nil: "py_index [] i = Inl IndexError"
  by (simp add: py_index_def)

lemma closed_arange_pos:
  assumes "0 < step" "start < stop"
  shows "closed_arange start stop step =
     Inr (map (\<lambda>k. start + int k * step) [0 ..< Suc (nat ((stop - start) div step))])"
proof -
  define d where "d = stop - start"
  define q where "q = nat (d div step)"
  define f where "f = (\<lambda>k. start + int k * step)"
  have d: "0 < d" using assms by (simp add: d_def)
  have qn: "int q = d div step"
    using d assms by (simp add: q_def pos_imp_zdiv_nonneg_iff)
  have "closed_arange start stop step = Inr (map f [0 ..< Suc q])"
  proof (cases "step dvd d")
    case True
    then have dq: "d = int q * step" using qn by simp
    with d assms have "0 < q" by (cases q) auto
    then obtain r where r: "q = Suc r" by (cases q) auto
    have ar: "np_arange start stop step = Inr (map f [0 ..< q])"
      using np_arange_pos[OF assms] True by (simp add: d_def q_def f_def)
    have st: "stop = f q" using dq by (simp add: d_def f_def)
    have "f r + step = f q" by (simp add: f_def r algebra_simps)
    then have "f r + step \<le> stop" using st by simp
    moreover have "py_index (map f [0 ..< q]) (- 1) = Inr (f r)"
      by (simp add: r py_index_last)
    ultimately show ?thesis
      unfolding closed_arange_def ar using st by simp
  next
    case False
    have ar: "np_arange start stop step = Inr (map f [0 ..< Suc q])"
      using np_arange_pos[OF assms] False by (simp add: d_def q_def f_def)
    have "d mod step \<noteq> 0" using False by (simp add: dvd_eq_mod_eq_0)
    moreover have "d mod step < step" "0 \<le> d mod step" using assms by simp_all
    moreover have "d = int q * step + d mod step" using qn by simp
    ultimately have "d < int q * step + step" by linarith
    then have "\<not> (f q + step \<le> stop)" by (simp add: d_def f_def)
    moreover have "py_index (map f [0 ..< Suc q]) (- 1) = Inr (f q)"
      by (simp add: py_index_last)
    ultimately show ?thesis
      unfolding closed_arange_def ar by simp
  qed
  then show ?thesis by (simp add: f_def q_def d_def)
qed

lemma closed_arange_empty:
  assumes "0 < step" "stop \<le> start"
  shows "closed_arange start stop step = Inl IndexError"
  by (simp add: closed_arange_def np_arange_empty[OF assms] py_index_Nil)

lemma arith_seq_strict:
  assumes "0 < step"
  shows "sorted_wrt (<) (map (\<lambda>k. start + int k * step) [0 ..< m])"
  using assms by (simp add: sorted_wrt_map sorted_wrt_iff_nth_less)

text \<open>
  Claim C1, as amended. For \<open>start < stop\<close> and a positive step, \<open>closed_arange\<close>
  returns the increasing arithmetic sequence \<open>start, start + step, ...\<close> of all terms up
  to \<open>stop\<close>: it begins at \<open>start\<close>, its last element is at most \<open>stop\<close> and less than
  a step below it, and the last element equals \<open>stop\<close> exactly when the step divides
  \<open>stop - start\<close>. The stop is not forced in otherwise.
\<close>

theorem closed_arange_sequence:
  assumes "start < stop" and "0 < step"
  shows "\<exists>xs. closed_arange start stop step = Inr xs
           \<and> xs = map (\<lambda>k. start + int k * step) [0 ..< Suc (nat ((stop - start) div step))]
           \<and> sorted_wrt (<) xs \<and> hd xs = start \<and> last xs \<le> stop \<and> stop < last xs + step
           \<and> (last xs = stop \<longleftrightarrow> step dvd (stop - start))"
proof -
  define q where "q = nat ((stop - start) div step)"
  define xs where "xs = map (\<lambda>k. start + int k * step) [0 ..< Suc q]"
  have qn: "int q = (stop - start) div step"
    using assms by (simp add: q_def pos_imp_zdiv_nonneg_iff)
  have l: "last xs = start + int q * step"
    by (simp add: xs_def)
  have m: "stop - start = int q * step + (stop - start) mod step"
    using qn by simp
  have r: "0 \<le> (stop - start) mod step" "(stop - start) mod step < step"
    using assms by simp_all
  have "closed_arange start stop step = Inr xs"
    using closed_arange_pos[OF assms(2) assms(1)] by (simp add: xs_def q_def)
  moreover have "sorted_wrt (<) xs"
    unfolding xs_def using assms(2) by (rule arith_seq_strict)
  moreover have "hd xs = start"
    unfolding xs_def by (simp add: upt_conv_Cons del: upt_Suc)
  moreover have "last xs \<le> stop" "stop < last xs + step"
    using l m r by linarith+
  moreover have "last xs = stop \<longleftrightarrow> step dvd (stop - start)"
  proof
    assume "last xs = stop"
    then have "stop - start = int q * step" using l by simp
    then show "step dvd (stop - start)" by simp
  next
    assume "step dvd (stop - start)"
    then have "(stop - start) mod step = 0" by simp
    then show "last xs = stop" using l m by simp
  qed
  ultimately show ?thesis
    unfolding xs_def q_def by blast
qed

theorem closed_arange_sequence_witness:
  "(10 :: int) < 100 \<and> (0 :: int) < 10
   \<and> closed_arange 10 100 10 = Inr [10, 20, 30, 40, 50, 60, 70, 80, 90, 100]
   \<and> last [10, 20, 30, 40, 50, 60, 70, 80, 90, 100 :: int] = 100"
  using closed_arange_sequence[of 10 100 10] by (simp add: upt_conv_Cons)

theorem closed_arange_stop_not_forced:
  "(0 :: int) < 10 \<and> (0 :: int) < 3 \<and> closed_arange 0 10 3 = Inr [0, 3, 6, 9]
   \<and> closed_arange 0 10 3 \<noteq> Inr [0, 3, 6, 9, 10] \<and> last [0, 3, 6, 9 :: int] \<noteq> 10"
  by (simp add: closed_arange_def np_arange_def py_index_def upt_conv_Cons)

text \<open>
  Claim C9, as amended. With a positive step, \<open>closed_arange\<close> raises \<open>IndexError\<close> on
  \<open>array[-1]\<close> exactly when \<open>stop \<le> start\<close> (the half-open range is then empty), and
  returns a non-empty array exactly when \<open>start < stop\<close>.
\<close>

theorem closed_arange_faults:
  assumes "0 < step"
  shows "(stop \<le> start \<longrightarrow> closed_arange start stop step = Inl IndexError)
       \<and> (start < stop \<longrightarrow> (\<exists>xs. closed_arange start stop step = Inr xs \<and> xs \<noteq> []))"
proof (intro conjI impI)
  assume "stop \<le> start"
  with assms show "closed_arange start stop step = Inl IndexError"
    by (rule closed_arange_empty)
next
  assume "start < stop"
  with assms show "\<exists>xs. closed_arange start stop step = Inr xs \<and> xs \<noteq> []"
    by (simp add: closed_arange_pos)
qed

theorem closed_arange_faults_witness:
  "(0 :: int) < 2 \<and> (10 :: int) \<le> 10 \<and> closed_arange 10 10 2 = Inl IndexError
   \<and> (10 :: int) < 15 \<and> (\<exists>xs. closed_arange 10 15 2 = Inr xs \<and> xs \<noteq> [])"
  using closed_arange_faults[of 2 10 10] closed_arange_faults[of 2 15 10] by simp

theorem closed_arange_negative_step_returns:
  "(0 :: int) \<le> 10 \<and> closed_arange 10 0 (- 3) = Inr [10, 7, 4, 1, 0]
   \<and> closed_arange 10 0 (- 3) \<noteq> Inl IndexError"
  by (simp add: closed_arange_def np_arange_def py_index_def upt_conv_Cons)

subsection \<open>\<open>overlap_factor\<close>: table, closed form and its bounds\<close>

lemma arctan_inv_sqrt3: "arctan (1 / sqrt 3) = pi / 6"
  by (rule arctan_unique) (simp_all add: tan_30)

lemma arctan_eighth: "arctan (1 / 8) < pi / 24"
proof -
  have a: "2 * arctan (1 / 8 :: real) = arctan (16 / 63)"
    using arctan_double[of "1 / 8 :: real"] by (simp add: power2_eq_square)
  have b: "2 * arctan (16 / 63 :: real) = arctan (2016 / 3713)"
    using arctan_double[of "16 / 63 :: real"] by (simp add: power2_eq_square)
  have "sqrt 3 < 3713 / 2016"
    by (rule real_less_lsqrt) (simp_all add: power2_eq_square)
  then have "(2016 / 3713 :: real) < 1 / sqrt 3"
    by (simp add: field_simps)
  then have "arctan (2016 / 3713) < arctan (1 / sqrt 3)"
    by (simp only: arctan_less_iff)
  then have "4 * arctan (1 / 8 :: real) < pi / 6"
    using a b arctan_inv_sqrt3 by linarith
  then show ?thesis by simp
qed

lemma arctan_8_lower: "11 * pi / 24 < arctan 8"
proof -
  have "arctan (1 / 8 :: real) = pi / 2 - arctan 8"
    using arctan_inverse[of "8 :: real"] by simp
  then show ?thesis using arctan_eighth by linarith
qed

lemma closed_form_bounds:
  fixes x :: real
  assumes "8 \<le> x"
  shows "0.64 < (13 / (9 * pi)) * arctan x" "(13 / (9 * pi)) * arctan x < 13 / 18"
proof -
  have "arctan 8 \<le> arctan x" using assms by (simp only: arctan_le_iff)
  then have lo: "11 * pi / 24 < arctan x" using arctan_8_lower by linarith
  have c: "0 < 13 / (9 * pi)" by simp
  have "(13 / (9 * pi)) * (11 * pi / 24) < (13 / (9 * pi)) * arctan x"
    using lo c by (rule mult_strict_left_mono)
  moreover have "(13 / (9 * pi)) * (11 * pi / 24) = 143 / 216" by simp
  ultimately show "0.64 < (13 / (9 * pi)) * arctan x" by simp
  have "(13 / (9 * pi)) * arctan x < (13 / (9 * pi)) * (pi / 2)"
    using arctan_ubound[of x] c by (rule mult_strict_left_mono)
  moreover have "(13 / (9 * pi)) * (pi / 2) = 13 / 18" by simp
  ultimately show "(13 / (9 * pi)) * arctan x < 13 / 18" by simp
qed

lemma closed_form_limit:
  "(\<lambda>n. (13 / (9 * pi)) * arctan (real n)) \<longlonglongrightarrow> 13 / 18"
proof -
  have "(\<lambda>n. arctan (real n)) \<longlonglongrightarrow> pi / 2"
    by (rule filterlim_compose[OF tendsto_arctan_at_top filterlim_real_sequentially])
  then have "(\<lambda>n. (13 / (9 * pi)) * arctan (real n)) \<longlonglongrightarrow> (13 / (9 * pi)) * (pi / 2)"
    by (rule tendsto_mult_left)
  then show ?thesis by simp
qed

lemma overlap_factor_table:
  "overlap_factor 1 = Inr 0.64" "overlap_factor 2 = Inr 0.375" "overlap_factor 3 = Inr 0.5"
  "overlap_factor 4 = Inr 0.56" "overlap_factor 5 = Inr 0.6" "overlap_factor 6 = Inr 0.625"
  "overlap_factor 7 = Inr 0.64"
  by (simp_all add: overlap_factor_def py_index_def)

lemma overlap_factor_closed_form:
  "8 \<le> N \<Longrightarrow> overlap_factor N = Inr ((13 / (9 * pi)) * arctan (real_of_int N))"
  by (simp add: overlap_factor_def)

text \<open>
  Claim C3, as amended. \<open>overlap_factor\<close> returns the table values 0.375, 0.5, 0.56, 0.6,
  0.625, 0.64 for 2 to 7 windows and \<open>(13 / (9 \<pi>)) * atan(N)\<close> from 8 windows on. The
  closed form does not stay below the last table value: from 8 windows on it lies strictly
  between 0.64 and 13/18, it increases with the number of windows, and 13/18 is its limit.
\<close>

theorem overlap_factor_values:
  "overlap_factor 2 = Inr 0.375 \<and> overlap_factor 3 = Inr 0.5 \<and> overlap_factor 4 = Inr 0.56
   \<and> overlap_factor 5 = Inr 0.6 \<and> overlap_factor 6 = Inr 0.625 \<and> overlap_factor 7 = Inr 0.64
   \<and> (\<forall>N\<ge>8. \<exists>v. overlap_factor N = Inr v \<and> v = (13 / (9 * pi)) * arctan (real_of_int N)
          \<and> 0.64 < v \<and> v < 13 / 18
          \<and> (\<forall>M>N. \<exists>w. overlap_factor M = Inr w \<and> v < w))
   \<and> (\<lambda>n. (13 / (9 * pi)) * arctan (real n)) \<longlonglongrightarrow> 13 / 18"
proof -
  have "\<exists>v. overlap_factor N = Inr v \<and> v = (13 / (9 * pi)) * arctan (real_of_int N)
          \<and> 0.64 < v \<and> v < 13 / 18
          \<and> (\<forall>M>N. \<exists>w. overlap_factor M = Inr w \<and> v < w)" if N: "8 \<le> N" for N
  proof -
    have b: "(8 :: real) \<le> real_of_int N" using N by simp
    have "(13 / (9 * pi)) * arctan (real_of_int N) < (13 / (9 * pi)) * arctan (real_of_int M)"
      if "N < M" for M
    proof -
      have "arctan (real_of_int N) < arctan (real_of_int M)"
        using that by (simp add: arctan_less_iff)
      moreover have "0 < 13 / (9 * pi)" by simp
      ultimately show ?thesis by (rule mult_strict_left_mono)
    qed
    moreover have "overlap_factor M = Inr ((13 / (9 * pi)) * arctan (real_of_int M))"
      if "N < M" for M
      using that N by (simp add: overlap_factor_closed_form)
    ultimately show ?thesis
      using overlap_factor_closed_form[OF N] closed_form_bounds[OF b] by simp
  qed
  then have B: "\<forall>N\<ge>8. \<exists>v. overlap_factor N = Inr v \<and> v = (13 / (9 * pi)) * arctan (real_of_int N)
          \<and> 0.64 < v \<and> v < 13 / 18
          \<and> (\<forall>M>N. \<exists>w. overlap_factor M = Inr w \<and> v < w)"
    by blast
  show ?thesis
    by (intro conjI overlap_factor_table B closed_form_limit)
qed

theorem overlap_factor_values_witness:
  "(8 :: int) \<le> 8 \<and> (8 :: int) < 9
   \<and> overlap_factor 8 = Inr ((13 / (9 * pi)) * arctan 8)
   \<and> 0.64 < (13 / (9 * pi)) * arctan 8 \<and> (13 / (9 * pi)) * arctan 8 < 13 / 18
   \<and> overlap_factor 9 = Inr ((13 / (9 * pi)) * arctan 9)
   \<and> (13 / (9 * pi)) * arctan 8 < (13 / (9 * pi)) * arctan 9"
proof -
  note t = overlap_factor_values
  have A: "\<forall>N\<ge>8. \<exists>v. overlap_factor N = Inr v \<and> v = (13 / (9 * pi)) * arctan (real_of_int N)
          \<and> 0.64 < v \<and> v < 13 / 18
          \<and> (\<forall>M>N. \<exists>w. overlap_factor M = Inr w \<and> v < w)"
    by (rule t[THEN conjunct2, THEN conjunct2, THEN conjunct2, THEN conjunct2, THEN conjunct2,
          THEN conjunct2, THEN conjunct1])
  have "(8 :: int) \<le> 8" by simp
  with A obtain v where
    v: "overlap_factor 8 = Inr v" "v = (13 / (9 * pi)) * arctan (real_of_int 8)"
       "0.64 < v" "v < 13 / 18" "\<forall>M>8. \<exists>w. overlap_factor M = Inr w \<and> v < w"
    by blast
  have "(8 :: int) < 9" by simp
  with v(5) obtain w where w: "overlap_factor 9 = Inr w" "v < w"
    by blast
  have "overlap_factor 9 = Inr ((13 / (9 * pi)) * arctan 9)"
    by (simp add: overlap_factor_def)
  with w have "w = (13 / (9 * pi)) * arctan 9" by simp
  with v w show ?thesis by simp
qed

theorem overlap_factor_exceeds_ceiling:
  "overlap_factor 8 = Inr ((13 / (9 * pi)) * arctan 8)
   \<and> (0.64 :: real) < (13 / (9 * pi)) * arctan 8"
  using closed_form_bounds(1)[of 8] by (simp add: overlap_factor_def)

subsection \<open>The window arguments and the window split\<close>




lemma make_window_kwargs_zero_windows:
  "make_window_kwargs ext L 0 p = Inl ZeroDivisionError"
  by (simp add: make_window_kwargs_def overlap_factor_def py_index_def bind_err_def
      py_truediv_def)

lemma make_window_kwargs_negative_windows:
  "N \<le> - 5 \<Longrightarrow> make_window_kwargs ext L N p = Inl IndexError"
  by (simp add: make_window_kwargs_def overlap_factor_def py_index_def bind_err_def)





lemmas eval_defs = perform_backtest_def prepare_def split_windows_def make_window_kwargs_def
  overlap_factor_def py_index_def bind_err_def py_truediv_def py_round_def make_time_interval_def
  py_int_def is_space_def digit_value_def py_round_ndigits_def trading_day_conversion_def
  make_pf_kwargs_def strategy_setup_def closed_arange_def np_arange_def backtest_windows_def
  backtest_windows_rsi_def backtest_windows_sma_def backtest_windows_ema_def params_index_def
  get_optimal_parameters_def groupby_apply_def window_keys_def window_rows_def split_idx_def
  idxmax_def idxmin_def select_labels_def demo_ext_def Let_def upt_conv_Cons






subsection \<open>The time interval\<close>









lemma time_interval_hour: "make_time_interval ''1h'' = Inr (Formatted 3.6923 ''m'')"
  by (simp add: make_time_interval_def py_int_def is_space_def digit_value_def bind_err_def
      py_round_ndigits_def py_round_def trading_day_conversion_def)

subsection \<open>The optimizer \<open>get_optimal_parameters\<close>\<close>

lemma first_best_split:
  assumes trans: "\<And>a b c. better a b \<Longrightarrow> better b c \<Longrightarrow> better a c"
    and neg: "\<And>a b c. \<not> better a b \<Longrightarrow> better c b \<Longrightarrow> better c a"
  shows "\<exists>xs ys. b # rs = xs @ first_best better b rs # ys
           \<and> (\<forall>x\<in>set xs. better (snd (first_best better b rs)) (snd x))
           \<and> (\<forall>y\<in>set ys. \<not> better (snd y) (snd (first_best better b rs)))"
proof (induction rs arbitrary: b)
  case Nil
  show ?case by (intro exI[of _ "[]"]) simp
next
  case (Cons r rs)
  define b' where "b' = (if better (snd r) (snd b) then r else b)"
  define e where "e = first_best better b' rs"
  have e: "first_best better b (r # rs) = e" by (simp add: e_def b'_def)
  from Cons[of b'] obtain xs ys where
    s: "b' # rs = xs @ e # ys" "\<forall>x\<in>set xs. better (snd e) (snd x)"
       "\<forall>y\<in>set ys. \<not> better (snd y) (snd e)"
    unfolding e_def by blast
  show ?case
  proof (cases "better (snd r) (snd b)")
    case True
    then have b': "b' = r" by (simp add: b'_def)
    have "better (snd e) (snd b)"
    proof (cases xs)
      case Nil
      with s(1) b' have "e = r" by simp
      with True show ?thesis by simp
    next
      case (Cons x xs')
      with s(1) b' have "r \<in> set xs" by simp
      with s(2) have "better (snd e) (snd r)" by blast
      with True show ?thesis by (blast intro: trans)
    qed
    moreover have "b # r # rs = (b # xs) @ e # ys" using s(1) b' by simp
    ultimately show ?thesis unfolding e using s(2,3) by (intro exI[of _ "b # xs"] exI[of _ ys]) simp
  next
    case False
    then have b': "b' = b" by (simp add: b'_def)
    show ?thesis
    proof (cases xs)
      case Nil
      with s(1) b' have eb: "e = b" and ys: "ys = rs" by simp_all
      have "b # r # rs = [] @ e # (r # rs)" using eb by simp
      moreover have "\<forall>y\<in>set (r # rs). \<not> better (snd y) (snd e)"
        using False s(3) eb ys by simp
      ultimately show ?thesis unfolding e by (intro exI[of _ "[]"] exI[of _ "r # rs"]) simp
    next
      case (Cons x xs')
      with s(1) b' have x: "x = b" and rs: "rs = xs' @ e # ys" by simp_all
      have "better (snd e) (snd b)" using s(2) Cons x by simp
      with False have "better (snd e) (snd r)" by (rule neg)
      moreover have "b # r # rs = (b # r # xs') @ e # ys" using rs by simp
      ultimately show ?thesis unfolding e using s(2,3) Cons x
        by (intro exI[of _ "b # r # xs'"] exI[of _ ys]) simp
    qed
  qed
qed

lemma idxmax_first:
  assumes "rows \<noteq> []"
  shows "\<exists>xs l v ys. idxmax rows = Inr l \<and> rows = xs @ (l, v) # ys
           \<and> (\<forall>x\<in>set xs. snd x < v) \<and> (\<forall>y\<in>set ys. snd y \<le> v)"
proof -
  from assms obtain b rs where r: "rows = b # rs" by (cases rows) auto
  obtain xs ys where
    s: "b # rs = xs @ first_best (\<lambda>x y. y < x) b rs # ys"
       "\<forall>x\<in>set xs. snd x < snd (first_best (\<lambda>x y. y < x) b rs)"
       "\<forall>y\<in>set ys. \<not> snd (first_best (\<lambda>x y. y < x) b rs) < snd y"
    using first_best_split[of "\<lambda>x y :: real. y < x" b rs] by auto
  obtain l v where lv: "first_best (\<lambda>x y. y < x) b rs = (l, v)" by (cases "first_best (\<lambda>x y. y < x) b rs")
  have "idxmax rows = Inr l" by (simp add: idxmax_def r lv)
  moreover have "rows = xs @ (l, v) # ys" using s(1) r lv by simp
  moreover have "\<forall>x\<in>set xs. snd x < v" using s(2) lv by simp
  moreover have "\<forall>y\<in>set ys. snd y \<le> v" using s(3) lv by (simp add: not_less)
  ultimately show ?thesis by blast
qed

lemma idxmin_first:
  assumes "rows \<noteq> []"
  shows "\<exists>xs l v ys. idxmin rows = Inr l \<and> rows = xs @ (l, v) # ys
           \<and> (\<forall>x\<in>set xs. v < snd x) \<and> (\<forall>y\<in>set ys. v \<le> snd y)"
proof -
  from assms obtain b rs where r: "rows = b # rs" by (cases rows) auto
  obtain xs ys where
    s: "b # rs = xs @ first_best (\<lambda>x y. x < y) b rs # ys"
       "\<forall>x\<in>set xs. snd (first_best (\<lambda>x y. x < y) b rs) < snd x"
       "\<forall>y\<in>set ys. \<not> snd y < snd (first_best (\<lambda>x y. x < y) b rs)"
    using first_best_split[of "\<lambda>x y :: real. x < y" b rs] by auto
  obtain l v where lv: "first_best (\<lambda>x y. x < y) b rs = (l, v)" by (cases "first_best (\<lambda>x y. x < y) b rs")
  have "idxmin rows = Inr l" by (simp add: idxmin_def r lv)
  moreover have "rows = xs @ (l, v) # ys" using s(1) r lv by simp
  moreover have "\<forall>x\<in>set xs. v < snd x" using s(2) lv by simp
  moreover have "\<forall>y\<in>set ys. v \<le> snd y" using s(3) lv by (simp add: not_less)
  ultimately show ?thesis by blast
qed

lemma collect_all_Inr:
  assumes "\<forall>x\<in>set xs. \<exists>y. f x = Inr y"
  shows "\<exists>ys. collect (map f xs) = Inr ys \<and> length ys = length xs
           \<and> (\<forall>i<length xs. f (xs ! i) = Inr (ys ! i))"
  using assms
proof (induction xs)
  case Nil
  show ?case by simp
next
  case (Cons x xs)
  then obtain y where y: "f x = Inr y" by auto
  from Cons obtain ys where
    ys: "collect (map f xs) = Inr ys" "length ys = length xs"
        "\<forall>i<length xs. f (xs ! i) = Inr (ys ! i)"
    by auto
  have "\<forall>i<length (x # xs). f ((x # xs) ! i) = Inr ((y # ys) ! i)"
    using y ys(3) by (auto simp: nth_Cons split: nat.splits)
  then show ?case using y ys(1,2) by (intro exI[of _ "y # ys"]) simp
qed

lemma window_keys_set: "set (window_keys rows) = split_idx ` set rows"
  by (simp add: window_keys_def)

lemma window_keys_sorted: "sorted_wrt (<) (window_keys rows)"
  by (simp add: window_keys_def strict_sorted_iff)

lemma window_rows_nonempty: "k \<in> set (window_keys rows) \<Longrightarrow> window_rows k rows \<noteq> []"
  by (auto simp: window_keys_set window_rows_def filter_empty_conv)

lemma filter_eq_distinct:
  "distinct xs \<Longrightarrow> l \<in> set xs \<Longrightarrow> filter (\<lambda>x. x = l) xs = [l]"
proof (induction xs)
  case Nil
  then show ?case by simp
next
  case (Cons x xs)
  show ?case
  proof (cases "x = l")
    case True
    with Cons.prems have "l \<notin> set xs" by simp
    then have "filter (\<lambda>x. x = l) xs = []" by (auto simp: filter_empty_conv)
    with True show ?thesis by simp
  next
    case False
    with Cons show ?thesis by simp
  qed
qed

lemma select_labels_distinct:
  assumes "distinct (map fst rows)" and "set labels \<subseteq> fst ` set rows"
  shows "map fst (select_labels rows labels) = labels"
  using assms(2)
proof (induction labels)
  case Nil
  show ?case by (simp add: select_labels_def)
next
  case (Cons l ls)
  then obtain r where r: "r \<in> set rows" "fst r = l" by auto
  have "map fst (filter (\<lambda>r. fst r = l) rows) = filter (\<lambda>x. x = l) (map fst rows)"
    by (simp add: filter_map comp_def)
  also have "\<dots> = [l]"
    using assms(1) r by (intro filter_eq_distinct) auto
  finally have "map fst (filter (\<lambda>r. fst r = l) rows) = [l]" .
  moreover have "map fst (select_labels rows ls) = ls" using Cons by simp
  ultimately show ?case by (simp add: select_labels_def)
qed

lemma groupby_best:
  assumes best: "\<And>g. g \<noteq> [] \<Longrightarrow> \<exists>xs l v ys. f g = Inr l \<and> g = xs @ (l, v) # ys \<and> P xs v ys"
  shows "\<exists>labels. groupby_apply f rows = Inr labels
           \<and> length labels = length (window_keys rows)
           \<and> (\<forall>i<length (window_keys rows). \<exists>xs v ys.
                 window_rows (window_keys rows ! i) rows = xs @ (labels ! i, v) # ys
                 \<and> P xs v ys)"
proof -
  define h where "h = (\<lambda>k. f (window_rows k rows))"
  have "\<forall>k\<in>set (window_keys rows). \<exists>l. h k = Inr l"
    unfolding h_def using best[OF window_rows_nonempty] by blast
  from collect_all_Inr[OF this] obtain labels where
    l: "collect (map h (window_keys rows)) = Inr labels"
       "length labels = length (window_keys rows)"
       "\<forall>i<length (window_keys rows). h (window_keys rows ! i) = Inr (labels ! i)"
    by blast
  have "\<exists>xs v ys. window_rows (window_keys rows ! i) rows = xs @ (labels ! i, v) # ys \<and> P xs v ys"
    if i: "i < length (window_keys rows)" for i
  proof -
    have "window_keys rows ! i \<in> set (window_keys rows)" using i by simp
    from best[OF window_rows_nonempty[OF this]] obtain xs l' v ys where
      b: "f (window_rows (window_keys rows ! i) rows) = Inr l'"
         "window_rows (window_keys rows ! i) rows = xs @ (l', v) # ys" "P xs v ys"
      by blast
    have "l' = labels ! i" using b(1) l(3) i by (simp add: h_def)
    with b(2,3) show ?thesis by blast
  qed
  then show ?thesis using l(1,2) by (simp add: groupby_apply_def h_def)
qed

lemma optimal_from_labels:
  assumes d: "distinct (map fst rows)"
    and g: "groupby_apply f rows = Inr labels"
    and n: "length labels = length (window_keys rows)"
    and w: "\<forall>i<length (window_keys rows). \<exists>xs v ys.
                 window_rows (window_keys rows ! i) rows = xs @ (labels ! i, v) # ys
                 \<and> P xs v ys"
  shows "map fst (select_labels rows labels) = labels"
    and "\<forall>i<length (window_keys rows).
           labels ! i = (fst (labels ! i), fst (snd (labels ! i)), window_keys rows ! i)"
proof -
  have m: "(labels ! i, v) \<in> set (window_rows (window_keys rows ! i) rows)"
    if "window_rows (window_keys rows ! i) rows = xs @ (labels ! i, v) # ys" for i xs v ys
    using that by simp
  have "l \<in> fst ` set rows" if "l \<in> set labels" for l
  proof -
    from that obtain i where i: "i < length labels" "l = labels ! i"
      by (auto simp: in_set_conv_nth)
    with w n obtain xs v ys where
      "window_rows (window_keys rows ! i) rows = xs @ (labels ! i, v) # ys" by auto
    from m[OF this] have "(l, v) \<in> set rows" using i by (simp add: window_rows_def)
    then show ?thesis by force
  qed
  then have "set labels \<subseteq> fst ` set rows" by blast
  with d show "map fst (select_labels rows labels) = labels"
    by (rule select_labels_distinct)
  show "\<forall>i<length (window_keys rows).
           labels ! i = (fst (labels ! i), fst (snd (labels ! i)), window_keys rows ! i)"
  proof (intro allI impI)
    fix i assume "i < length (window_keys rows)"
    with w obtain xs v ys where
      "window_rows (window_keys rows ! i) rows = xs @ (labels ! i, v) # ys" by auto
    from m[OF this] have "split_idx (labels ! i, v) = window_keys rows ! i"
      by (simp add: window_rows_def)
    then show "labels ! i = (fst (labels ! i), fst (snd (labels ! i)), window_keys rows ! i)"
      by (simp add: split_idx_def prod_eq_iff)
  qed
qed

text \<open>
  Claim C4. For a metric series that gives each column label one (finite) value,
  \<open>get_optimal_parameters\<close> returns one parameter combination per window, in increasing
  order of the window index. In each window the rows split, in series order, into the rows
  before the selected one, the selected row and the rows after it: for \<open>max_drawdown\<close> the
  selected value is strictly below every earlier value and at most every later one (the
  first minimum); for every other metric it is strictly above every earlier value and at
  least every later one (the first maximum). When the rows of the window are in canonical
  grid order, every other row with the selected value is a later combination of the grid.
\<close>

theorem get_optimal_parameters_selects:
  assumes "distinct (map fst rows)"
  shows "\<exists>firsts seconds.
           get_optimal_parameters selected_metric rows = Inr (Array2 [firsts, seconds])
           \<and> length firsts = length (window_keys rows)
           \<and> length seconds = length (window_keys rows)
           \<and> set (window_keys rows) = split_idx ` set rows
           \<and> sorted_wrt (<) (window_keys rows)
           \<and> (\<forall>i<length (window_keys rows). \<exists>xs v ys.
                 window_rows (window_keys rows ! i) rows =
                   xs @ ((firsts ! i, seconds ! i, window_keys rows ! i), v) # ys
                 \<and> (if selected_metric = ''max_drawdown''
                     then (\<forall>x\<in>set xs. v < snd x) \<and> (\<forall>y\<in>set ys. v \<le> snd y)
                     else (\<forall>x\<in>set xs. snd x < v) \<and> (\<forall>y\<in>set ys. snd y \<le> v))
                 \<and> (sorted_wrt grid_less
                       (map combination (window_rows (window_keys rows ! i) rows))
                     \<longrightarrow> (\<forall>r\<in>set (window_rows (window_keys rows ! i) rows). snd r = v
                           \<longrightarrow> combination r = (firsts ! i, seconds ! i)
                               \<or> grid_less (firsts ! i, seconds ! i) (combination r))))"
proof -
  define P where "P = (\<lambda>(xs :: metric_series) v (ys :: metric_series).
     if selected_metric = ''max_drawdown''
     then (\<forall>x\<in>set xs. v < snd x) \<and> (\<forall>y\<in>set ys. v \<le> snd y)
     else (\<forall>x\<in>set xs. snd x < v) \<and> (\<forall>y\<in>set ys. snd y \<le> v))"
  define f :: "metric_series \<Rightarrow> py_error + label" where
    "f = (if selected_metric = ''max_drawdown'' then idxmin else idxmax)"
  have best: "\<exists>xs l v ys. f g = Inr l \<and> g = xs @ (l, v) # ys \<and> P xs v ys" if "g \<noteq> []" for g
    using idxmax_first[OF that] idxmin_first[OF that] by (auto simp: f_def P_def)
  from groupby_best[of f P, OF best] obtain labels where
    l: "groupby_apply f rows = Inr labels" "length labels = length (window_keys rows)"
       "\<forall>i<length (window_keys rows). \<exists>xs v ys.
           window_rows (window_keys rows ! i) rows = xs @ (labels ! i, v) # ys \<and> P xs v ys"
    by blast
  note o = optimal_from_labels[OF assms l]
  define firsts where "firsts = map fst labels"
  define seconds where "seconds = map (\<lambda>l. fst (snd l)) labels"
  have g: "get_optimal_parameters selected_metric rows = Inr (Array2 [firsts, seconds])"
  proof (cases "selected_metric = ''max_drawdown''")
    case True
    then have "groupby_apply idxmin rows = Inr labels" using l(1) by (simp add: f_def)
    then show ?thesis
      using True o(1) by (simp add: get_optimal_parameters_def Let_def firsts_def seconds_def)
  next
    case False
    then have "groupby_apply idxmax rows = Inr labels" using l(1) by (simp add: f_def)
    then show ?thesis
      using False o(1) by (simp add: get_optimal_parameters_def Let_def firsts_def seconds_def)
  qed
  have w: "\<exists>xs v ys.
       window_rows (window_keys rows ! i) rows =
         xs @ ((firsts ! i, seconds ! i, window_keys rows ! i), v) # ys
       \<and> (if selected_metric = ''max_drawdown''
           then (\<forall>x\<in>set xs. v < snd x) \<and> (\<forall>y\<in>set ys. v \<le> snd y)
           else (\<forall>x\<in>set xs. snd x < v) \<and> (\<forall>y\<in>set ys. snd y \<le> v))
       \<and> (sorted_wrt grid_less (map combination (window_rows (window_keys rows ! i) rows))
           \<longrightarrow> (\<forall>r\<in>set (window_rows (window_keys rows ! i) rows). snd r = v
                 \<longrightarrow> combination r = (firsts ! i, seconds ! i)
                     \<or> grid_less (firsts ! i, seconds ! i) (combination r)))"
    if i: "i < length (window_keys rows)" for i
  proof -
    define k where "k = window_keys rows ! i"
    from l(3) i obtain xs v ys where
      s: "window_rows k rows = xs @ (labels ! i, v) # ys" "P xs v ys"
      unfolding k_def by blast
    have lab: "labels ! i = (firsts ! i, seconds ! i, k)"
      using o(2) i l(2) by (simp add: firsts_def seconds_def k_def)
    have c: "combination (labels ! i, v) = (firsts ! i, seconds ! i)"
      by (simp add: combination_def lab)
    have t: "combination r = (firsts ! i, seconds ! i)
             \<or> grid_less (firsts ! i, seconds ! i) (combination r)"
      if srt: "sorted_wrt grid_less (map combination (window_rows k rows))"
        and r: "r \<in> set (window_rows k rows)" and v: "snd r = v" for r
    proof -
      have "r \<notin> set xs" using s(2) v by (auto simp: P_def split: if_splits)
      with r s(1) have "r = (labels ! i, v) \<or> r \<in> set ys" by auto
      moreover have "\<forall>y\<in>set ys. grid_less (combination (labels ! i, v)) (combination y)"
        using srt unfolding s(1) by (simp add: sorted_wrt_append)
      ultimately show ?thesis using c by auto
    qed
    have "window_rows k rows = xs @ ((firsts ! i, seconds ! i, k), v) # ys"
      using s(1) lab by simp
    moreover have "if selected_metric = ''max_drawdown''
           then (\<forall>x\<in>set xs. v < snd x) \<and> (\<forall>y\<in>set ys. v \<le> snd y)
           else (\<forall>x\<in>set xs. snd x < v) \<and> (\<forall>y\<in>set ys. snd y \<le> v)"
      using s(2) by (simp add: P_def)
    ultimately show ?thesis unfolding k_def[symmetric] using t by blast
  qed
  have "length firsts = length (window_keys rows)" "length seconds = length (window_keys rows)"
    using l(2) by (simp_all add: firsts_def seconds_def)
  with g w window_keys_set window_keys_sorted show ?thesis by blast
qed

theorem get_optimal_parameters_selects_witness:
  "distinct (map fst ([((10, 20, 0), 1), ((10, 20, 1), 2), ((10, 30, 0), 1), ((10, 30, 1), 3),
                       ((20, 30, 0), 0), ((20, 30, 1), 3)] :: metric_series))
   \<and> get_optimal_parameters ''sharpe_ratio''
        [((10, 20, 0), 1), ((10, 20, 1), 2), ((10, 30, 0), 1), ((10, 30, 1), 3),
         ((20, 30, 0), 0), ((20, 30, 1), 3)] = Inr (Array2 [[10, 10], [20, 30]])
   \<and> length [10, 10 :: int] =
       length (window_keys [((10, 20, 0), 1), ((10, 20, 1), 2), ((10, 30, 0), 1),
                            ((10, 30, 1), 3), ((20, 30, 0), 0), ((20, 30, 1), 3)])"
proof -
  define rows :: metric_series where
    "rows = [((10, 20, 0), 1), ((10, 20, 1), 2), ((10, 30, 0), 1), ((10, 30, 1), 3),
             ((20, 30, 0), 0), ((20, 30, 1), 3)]"
  have d: "distinct (map fst rows)" by (simp add: rows_def)
  from get_optimal_parameters_selects[OF d, of "''sharpe_ratio''"] obtain firsts seconds where
    f: "get_optimal_parameters ''sharpe_ratio'' rows = Inr (Array2 [firsts, seconds])"
       "length firsts = length (window_keys rows)"
    by blast
  have e: "get_optimal_parameters ''sharpe_ratio'' rows = Inr (Array2 [[10, 10], [20, 30]])"
    by (simp add: rows_def get_optimal_parameters_def groupby_apply_def window_keys_def
        window_rows_def split_idx_def idxmax_def select_labels_def)
  with f(1) have "firsts = [10, 10]" by simp
  with f(2) have "length [10, 10 :: int] = length (window_keys rows)" by simp
  with d e show ?thesis unfolding rows_def by simp
qed

lemma combinations2_set:
  "(a, b) \<in> set (combinations2 xs) \<Longrightarrow> \<exists>us vs ws. xs = us @ a # vs @ b # ws"
proof (induction xs)
  case Nil
  then show ?case by simp
next
  case (Cons x xs)
  from Cons.prems consider "a = x" "b \<in> set xs" | "(a, b) \<in> set (combinations2 xs)"
    by auto
  then show ?case
  proof cases
    case 1
    from 1(2) obtain vs ws where "xs = vs @ b # ws" by (auto simp: in_set_conv_decomp)
    then have "x # xs = [] @ a # vs @ b # ws" using 1(1) by simp
    then show ?thesis by blast
  next
    case 2
    from Cons.IH[OF this] obtain us vs ws where "xs = us @ a # vs @ b # ws" by blast
    then have "x # xs = (x # us) @ a # vs @ b # ws" by simp
    then show ?thesis by blast
  qed
qed

lemma combinations2_increasing:
  assumes "sorted_wrt (<) xs" and "(a, b) \<in> set (combinations2 xs)"
  shows "a < (b :: int)"
proof -
  from combinations2_set[OF assms(2)] obtain us vs ws where "xs = us @ a # vs @ b # ws"
    by blast
  with assms(1) show ?thesis by (simp add: sorted_wrt_append)
qed

lemma combinations2_grid_order:
  assumes "sorted_wrt (<) xs"
  shows "sorted_wrt grid_less (combinations2 xs)"
  using assms
proof (induction xs)
  case Nil
  show ?case by simp
next
  case (Cons x xs)
  have a: "sorted_wrt grid_less (map (Pair x) xs)"
    using Cons.prems by (simp add: sorted_wrt_map grid_less_def)
  have b: "sorted_wrt grid_less (combinations2 xs)"
    using Cons by simp
  have c: "grid_less (x, y) q" if "y \<in> set xs" "q \<in> set (combinations2 xs)" for y q
  proof -
    obtain a b where q: "q = (a, b)" by (cases q)
    with that(2) combinations2_set[of a b xs] have "a \<in> set xs" by auto
    with Cons.prems have "x < a" by simp
    then show ?thesis by (simp add: grid_less_def q)
  qed
  show ?case using a b c by (auto simp: sorted_wrt_append)
qed

subsection \<open>The portfolios submitted by a run\<close>

lemma backtest_windows_config:
  assumes "backtest_windows s kw price ps flag = Inr pf"
  shows "pf_config pf = kw" and "pf_price pf = price"
  using assms
  by (auto simp: backtest_windows_def backtest_windows_sma_def backtest_windows_ema_def
      backtest_windows_rsi_def bind_err_def Let_def split: if_splits sum.splits)

lemma prepare_kwargs:
  assumes "prepare ext data_type df selected_strategy nwindows insample selected_timeframe
             selected_direction selected_range = Inr env"
  shows "\<exists>time_interval. make_time_interval selected_timeframe = Inr time_interval
           \<and> kwargs env = make_pf_kwargs selected_direction time_interval"
    and "strategy_setup selected_strategy selected_range = Inr (strategy env)"
  using assms by (auto simp: prepare_def bind_err_def split: sum.splits)

lemma perform_backtest_simulations:
  assumes "pf \<in> set (fst (perform_backtest ext data_type cache n_clicks session_id
             selected_strategy nwindows insample selected_timeframe selected_asset dates
             selected_direction selected_range selected_metric))"
  shows "\<exists>df env st pf_insample.
           prepare ext data_type df selected_strategy nwindows insample selected_timeframe
             selected_direction selected_range = Inr env
           \<and> strategy env = Some st
           \<and> backtest_windows selected_strategy (kwargs env) (in_price env)
               (parameter_values st) True = Inr pf_insample
           \<and> (pf = pf_insample
              \<or> backtest_windows selected_strategy (kwargs env) (out_price env)
                   (parameter_values st) True = Inr pf
              \<or> (\<exists>rows ps. deep_getattr ext pf_insample selected_metric = Inr rows
                    \<and> get_optimal_parameters selected_metric rows = Inr ps
                    \<and> backtest_windows selected_strategy (kwargs env) (out_price env) ps False
                        = Inr pf))"
proof -
  let ?load = "bind_err (py_index dates 0) (\<lambda>start_date.
           bind_err (py_index dates 1) (\<lambda>end_date.
             cached_df ext cache selected_timeframe selected_asset start_date end_date))"
  note def = perform_backtest_def
  show ?thesis
  proof (cases ?load)
    case (Inl e)
    with assms show ?thesis by (simp add: def)
  next
    case load: (Inr p)
    obtain df cache1 where p: "p = (df, cache1)" by (cases p)
    let ?prep = "bind_err (prepare ext data_type df selected_strategy nwindows insample
                       selected_timeframe selected_direction selected_range) (\<lambda>env.
           case strategy env of
             None \<Rightarrow> Inl UnboundLocalError
           | Some st \<Rightarrow> Inr (env, st))"
    show ?thesis
    proof (cases ?prep)
      case (Inl e)
      with assms load p show ?thesis by (simp add: def)
    next
      case prep: (Inr q)
      obtain env st where q: "q = (env, st)" by (cases q)
      from prep q have pe:
        "prepare ext data_type df selected_strategy nwindows insample selected_timeframe
           selected_direction selected_range = Inr env" "strategy env = Some st"
        by (auto simp: bind_err_def split: sum.splits option.splits)
      let ?bw = "backtest_windows selected_strategy (kwargs env)"
      show ?thesis
      proof (cases "?bw (in_price env) (parameter_values st) True")
        case (Inl e)
        with assms load p prep q show ?thesis by (simp add: def)
      next
        case ins: (Inr pf_insample)
        show ?thesis
        proof (cases "bind_err (deep_getattr ext pf_insample selected_metric)
                        (get_optimal_parameters selected_metric)")
          case (Inl e)
          with assms load p prep q ins have "pf = pf_insample" by (simp add: def)
          with pe ins show ?thesis by blast
        next
          case opt: (Inr outsample_parameters)
          then obtain rows where rows: "deep_getattr ext pf_insample selected_metric = Inr rows"
            "get_optimal_parameters selected_metric rows = Inr outsample_parameters"
            by (auto simp: bind_err_def split: sum.splits)
          show ?thesis
          proof (cases "?bw (out_price env) outsample_parameters False")
            case (Inl e)
            with assms load p prep q ins opt have "pf = pf_insample" by (simp add: def)
            with pe ins show ?thesis by blast
          next
            case out: (Inr pf_outsample)
            show ?thesis
            proof (cases "?bw (out_price env) (parameter_values st) True")
              case (Inl e)
              with assms load p prep q ins opt out
              have "pf = pf_insample \<or> pf = pf_outsample" by (simp add: def)
              with pe ins rows out show ?thesis by blast
            next
              case oo: (Inr pf_outsample_optimized)
              with assms load p prep q ins opt out
              have "pf = pf_insample \<or> pf = pf_outsample \<or> pf = pf_outsample_optimized"
                by (simp add: def)
              with pe ins rows out oo show ?thesis by blast
            qed
          qed
        qed
      qed
    qed
  qed
qed

lemma closed_arange_increasing:
  assumes "closed_arange start stop step = Inr xs" and "0 < step"
  shows "sorted_wrt (<) xs"
proof (cases "start < stop")
  case True
  from closed_arange_pos[OF assms(2) True] assms(1)
  have "xs = map (\<lambda>k. start + int k * step) [0 ..< Suc (nat ((stop - start) div step))]"
    by simp
  then show ?thesis using arith_seq_strict[OF assms(2)] by (simp only:)
next
  case False
  then have "closed_arange start stop step = Inl IndexError"
    using assms(2) by (intro closed_arange_empty) simp_all
  with assms(1) show ?thesis by simp
qed

lemma list_all2_pairs:
  "(\<forall>p\<in>set ps. f p < g p) \<Longrightarrow> list_all2 (<) (map f ps) (map g ps)"
  by (simp add: list_all2_map1 list_all2_map2 list_all2_same)

lemma strategy_setup_rsi:
  assumes "strategy_setup ''RSI'' selected_range = Inr (Some st)"
  shows "\<exists>es xs. parameter_values st = Array2 [es, xs] \<and> list_all2 (<) es xs"
proof -
  from assms obtain lo hi raw where
    raw: "closed_arange lo hi 2 = Inr raw"
    and st: "parameter_values st =
               Array2 [map fst (combinations2 raw), map snd (combinations2 raw)]"
    by (auto simp: strategy_setup_def bind_err_def Let_def split: sum.splits)
  have "sorted_wrt (<) raw" using raw by (rule closed_arange_increasing) simp
  then have "\<forall>p\<in>set (combinations2 raw). fst p < snd p"
    using combinations2_increasing by auto
  then have "list_all2 (<) (map fst (combinations2 raw)) (map snd (combinations2 raw))"
    by (rule list_all2_pairs)
  with st show ?thesis by blast
qed

lemma backtest_windows_rsi_pairs:
  "backtest_windows ''RSI'' kw price (Array2 [es, xs]) flag =
     Inr (From_signals price
            (Real_crossed_below (Talib_run ''RSI'' price (Scalar 14) False) (Values (Row es)))
            (Real_crossed_above (Talib_run ''RSI'' price (Scalar 14) False) (Values (Row xs)))
            kw)"
  by (simp add: backtest_windows_def backtest_windows_rsi_def params_index_def py_index_def
      bind_err_def Let_def)

lemma get_optimal_parameters_shape:
  assumes "get_optimal_parameters selected_metric rows = Inr ps"
  shows "\<exists>sel. ps = Array2 [map (\<lambda>r. fst (combination r)) sel, map (\<lambda>r. snd (combination r)) sel]
           \<and> set sel \<subseteq> set rows"
proof -
  from assms obtain labels where
    ps: "ps = Array2 [map fst (map fst (select_labels rows labels)),
                      map (\<lambda>l. fst (snd l)) (map fst (select_labels rows labels))]"
    by (auto simp: get_optimal_parameters_def Let_def split: sum.splits if_splits)
  have "set (select_labels rows labels) \<subseteq> set rows"
    by (auto simp: select_labels_def)
  moreover have "ps = Array2 [map (\<lambda>r. fst (combination r)) (select_labels rows labels),
                              map (\<lambda>r. snd (combination r)) (select_labels rows labels)]"
    by (simp add: ps combination_def comp_def)
  ultimately show ?thesis by blast
qed

text \<open>
  Claim C7. When the strategy is RSI and the simulator labels the columns of a metric
  series with the combinations submitted to it, every portfolio the callback submits -- the
  in-sample sweep, the out-of-sample run of the selected combinations and the
  out-of-sample sweep -- computes the oscillator as \<open>run(price, 14)\<close> and pairs entry
  and exit thresholds position by position with every entry threshold strictly below its
  exit threshold.
\<close>

theorem rsi_combinations_valid:
  assumes "labels_submitted ext"
    and "pf \<in> set (fst (perform_backtest ext data_type cache n_clicks session_id ''RSI''
           nwindows insample selected_timeframe selected_asset dates selected_direction
           selected_range selected_metric))"
  shows "\<exists>price es xs kw.
           pf = From_signals price
                  (Real_crossed_below (Talib_run ''RSI'' price (Scalar 14) False)
                     (Values (Row es)))
                  (Real_crossed_above (Talib_run ''RSI'' price (Scalar 14) False)
                     (Values (Row xs)))
                  kw
           \<and> list_all2 (<) es xs"
proof -
  from perform_backtest_simulations[OF assms(2)] obtain df env st pf_insample where
    prep: "prepare ext data_type df ''RSI'' nwindows insample selected_timeframe
             selected_direction selected_range = Inr env"
    and st: "strategy env = Some st"
    and ins: "backtest_windows ''RSI'' (kwargs env) (in_price env) (parameter_values st) True
                = Inr pf_insample"
    and pf: "pf = pf_insample
              \<or> backtest_windows ''RSI'' (kwargs env) (out_price env) (parameter_values st) True
                  = Inr pf
              \<or> (\<exists>rows ps. deep_getattr ext pf_insample selected_metric = Inr rows
                    \<and> get_optimal_parameters selected_metric rows = Inr ps
                    \<and> backtest_windows ''RSI'' (kwargs env) (out_price env) ps False = Inr pf)"
    by blast
  from prepare_kwargs(2)[OF prep] st
  have "strategy_setup ''RSI'' selected_range = Inr (Some st)" by simp
  from strategy_setup_rsi[OF this] obtain es xs where
    grid: "parameter_values st = Array2 [es, xs]" "list_all2 (<) es xs"
    by blast
  let ?pf = "\<lambda>price es xs kw. From_signals price
                  (Real_crossed_below (Talib_run ''RSI'' price (Scalar 14) False)
                     (Values (Row es)))
                  (Real_crossed_above (Talib_run ''RSI'' price (Scalar 14) False)
                     (Values (Row xs)))
                  kw"
  have i: "pf_insample = ?pf (in_price env) es xs (kwargs env)"
    using ins by (simp add: grid(1) backtest_windows_rsi_pairs)
  from pf consider (a) "pf = pf_insample"
    | (b) "backtest_windows ''RSI'' (kwargs env) (out_price env) (parameter_values st) True
            = Inr pf"
    | (c) rows ps where "deep_getattr ext pf_insample selected_metric = Inr rows"
        "get_optimal_parameters selected_metric rows = Inr ps"
        "backtest_windows ''RSI'' (kwargs env) (out_price env) ps False = Inr pf"
    by blast
  then show ?thesis
  proof cases
    case a
    with i grid(2) show ?thesis by blast
  next
    case b
    then have "pf = ?pf (out_price env) es xs (kwargs env)"
      by (simp add: grid(1) backtest_windows_rsi_pairs)
    with grid(2) show ?thesis by blast
  next
    case c
    from get_optimal_parameters_shape[OF c(2)] obtain sel where
      sel: "ps = Array2 [map (\<lambda>r. fst (combination r)) sel, map (\<lambda>r. snd (combination r)) sel]"
           "set sel \<subseteq> set rows"
      by blast
    have sub: "\<forall>r\<in>set rows. combination r \<in> set (zip es xs)"
      using assms(1) c(1) unfolding labels_submitted_def i by fastforce
    have "fst (combination r) < snd (combination r)" if "r \<in> set sel" for r
    proof -
      from that sel(2) sub have "combination r \<in> set (zip es xs)" by blast
      then obtain j where "j < length es" "j < length xs" "combination r = (es ! j, xs ! j)"
        by (auto simp: in_set_zip)
      with grid(2) show ?thesis by (simp add: list_all2_conv_all_nth)
    qed
    then have "list_all2 (<) (map (\<lambda>r. fst (combination r)) sel)
                 (map (\<lambda>r. snd (combination r)) sel)"
      by (intro list_all2_pairs) blast
    moreover have "pf = ?pf (out_price env) (map (\<lambda>r. fst (combination r)) sel)
                      (map (\<lambda>r. snd (combination r)) sel) (kwargs env)"
      using c(3) by (simp add: sel(1) backtest_windows_rsi_pairs)
    ultimately show ?thesis by blast
  qed
qed

text \<open>
  Claim C10. Every portfolio the callback submits to the simulator, for every strategy,
  direction, window count and parameter range, carries the configuration
  \<open>init_cash = 100\<close>, \<open>fees = 0.0\<close>, \<open>slippage = 0.0\<close>; of the request only the
  direction (and the timeframe, through \<open>freq\<close>) reaches the configuration.
\<close>

theorem fixed_trading_configuration:
  assumes "pf \<in> set (fst (perform_backtest ext data_type cache n_clicks session_id
             selected_strategy nwindows insample selected_timeframe selected_asset dates
             selected_direction selected_range selected_metric))"
  shows "init_cash (pf_config pf) = 100 \<and> fees (pf_config pf) = 0.0
       \<and> slippage (pf_config pf) = 0.0 \<and> direction (pf_config pf) = selected_direction
       \<and> make_time_interval selected_timeframe = Inr (freq (pf_config pf))"
proof -
  from perform_backtest_simulations[OF assms] obtain df env st pf_insample where
    prep: "prepare ext data_type df selected_strategy nwindows insample selected_timeframe
             selected_direction selected_range = Inr env"
    and st: "strategy env = Some st"
    and ins: "backtest_windows selected_strategy (kwargs env) (in_price env)
                (parameter_values st) True = Inr pf_insample"
    and pf: "pf = pf_insample
              \<or> backtest_windows selected_strategy (kwargs env) (out_price env)
                   (parameter_values st) True = Inr pf
              \<or> (\<exists>rows ps. deep_getattr ext pf_insample selected_metric = Inr rows
                    \<and> get_optimal_parameters selected_metric rows = Inr ps
                    \<and> backtest_windows selected_strategy (kwargs env) (out_price env) ps False
                        = Inr pf)"
    by blast
  have "pf_config pf = kwargs env"
  proof -
    from pf consider (a) "pf = pf_insample"
      | (b) "backtest_windows selected_strategy (kwargs env) (out_price env)
               (parameter_values st) True = Inr pf"
      | (c) ps where
          "backtest_windows selected_strategy (kwargs env) (out_price env) ps False = Inr pf"
      by blast
    then show ?thesis
    proof cases
      case a
      then show ?thesis using backtest_windows_config(1)[OF ins] by simp
    next
      case b
      then show ?thesis by (rule backtest_windows_config(1))
    next
      case c
      then show ?thesis by (rule backtest_windows_config(1))
    qed
  qed
  moreover from prepare_kwargs(1)[OF prep] obtain time_interval where
    "make_time_interval selected_timeframe = Inr time_interval"
    "kwargs env = make_pf_kwargs selected_direction time_interval"
    by blast
  ultimately show ?thesis by (simp add: make_pf_kwargs_def)
qed

subsection \<open>A concrete run of the RSI branch\<close>

lemma demo_run_rsi:
  "perform_backtest (demo_ext 400) ''yfinance'' 0 1 ''abc'' ''RSI'' 5 70 ''15m'' ''SPY''
     [''2023-01-02'', ''2023-01-24''] ''longonly'' [10, 14] ''sharpe_ratio'' =
   ([From_signals (5, 140)
       (Real_crossed_below (Talib_run ''RSI'' (5, 140) (Scalar 14) False)
          (Values (Row [10, 10, 12])))
       (Real_crossed_above (Talib_run ''RSI'' (5, 140) (Scalar 14) False)
          (Values (Row [12, 14, 14])))
       \<lparr>direction = ''longonly'', freq = Formatted 55.3846 ''m'', init_cash = 100, fees = 0,
        slippage = 0\<rparr>,
     From_signals (5, 60)
       (Real_crossed_below (Talib_run ''RSI'' (5, 60) (Scalar 14) False)
          (Values (Row [10, 10, 10, 10, 10])))
       (Real_crossed_above (Talib_run ''RSI'' (5, 60) (Scalar 14) False)
          (Values (Row [14, 14, 14, 14, 14])))
       \<lparr>direction = ''longonly'', freq = Formatted 55.3846 ''m'', init_cash = 100, fees = 0,
        slippage = 0\<rparr>,
     From_signals (5, 60)
       (Real_crossed_below (Talib_run ''RSI'' (5, 60) (Scalar 14) False)
          (Values (Row [10, 10, 12])))
       (Real_crossed_above (Talib_run ''RSI'' (5, 60) (Scalar 14) False)
          (Values (Row [12, 14, 14])))
       \<lparr>direction = ''longonly'', freq = Formatted 55.3846 ''m'', init_cash = 100, fees = 0,
        slippage = 0\<rparr>],
    Inr \<lparr>tables = (Array2 [[10, 10, 10, 10, 10], [14, 14, 14, 14, 14]],
                    Array2 [[10, 10, 10, 10, 10], [14, 14, 14, 14, 14]]),
         loading = False, cache_after = Suc 0, printed = ''stored session id: abc''\<rparr>)"
  by (simp add: eval_defs)

lemma demo_labels_submitted: "labels_submitted (demo_ext bars)"
  by (auto simp: labels_submitted_def demo_ext_def combination_def)

theorem rsi_combinations_valid_witness:
  "labels_submitted (demo_ext 400)
   \<and> From_signals (5, 60)
       (Real_crossed_below (Talib_run ''RSI'' (5, 60) (Scalar 14) False)
          (Values (Row [10, 10, 10, 10, 10])))
       (Real_crossed_above (Talib_run ''RSI'' (5, 60) (Scalar 14) False)
          (Values (Row [14, 14, 14, 14, 14])))
       \<lparr>direction = ''longonly'', freq = Formatted 55.3846 ''m'', init_cash = 100, fees = 0,
        slippage = 0\<rparr>
     \<in> set (fst (perform_backtest (demo_ext 400) ''yfinance'' 0 1 ''abc'' ''RSI'' 5 70 ''15m''
                  ''SPY'' [''2023-01-02'', ''2023-01-24''] ''longonly'' [10, 14]
                  ''sharpe_ratio''))
   \<and> list_all2 (<) [10, 10, 10, 10, 10 :: int] [14, 14, 14, 14, 14]"
proof -
  define pf :: "(nat \<times> nat) portfolio" where
    "pf = From_signals (5, 60)
       (Real_crossed_below (Talib_run ''RSI'' (5, 60) (Scalar 14) False)
          (Values (Row [10, 10, 10, 10, 10])))
       (Real_crossed_above (Talib_run ''RSI'' (5, 60) (Scalar 14) False)
          (Values (Row [14, 14, 14, 14, 14])))
       \<lparr>direction = ''longonly'', freq = Formatted 55.3846 ''m'', init_cash = 100, fees = 0,
        slippage = 0\<rparr>"
  have m: "pf \<in> set (fst (perform_backtest (demo_ext 400) ''yfinance'' 0 1 ''abc'' ''RSI'' 5 70
             ''15m'' ''SPY'' [''2023-01-02'', ''2023-01-24''] ''longonly'' [10, 14]
             ''sharpe_ratio''))"
    unfolding demo_run_rsi pf_def by simp
  from rsi_combinations_valid[OF demo_labels_submitted m] obtain price es xs kw where
    e: "pf = From_signals price
              (Real_crossed_below (Talib_run ''RSI'' price (Scalar 14) False) (Values (Row es)))
              (Real_crossed_above (Talib_run ''RSI'' price (Scalar 14) False) (Values (Row xs)))
              kw"
       "list_all2 (<) es xs"
    by blast
  from e(1) have "es = [10, 10, 10, 10, 10]" "xs = [14, 14, 14, 14, 14]"
    unfolding pf_def by simp_all
  with e(2) have "list_all2 (<) [10, 10, 10, 10, 10 :: int] [14, 14, 14, 14, 14]" by simp
  with demo_labels_submitted[of 400] m show ?thesis unfolding pf_def by blast
qed

theorem fixed_trading_configuration_witness:
  "hd (fst (perform_backtest (demo_ext 400) ''yfinance'' 0 1 ''abc'' ''RSI'' 5 70 ''15m''
              ''SPY'' [''2023-01-02'', ''2023-01-24''] ''longonly'' [10, 14] ''sharpe_ratio''))
     \<in> set (fst (perform_backtest (demo_ext 400) ''yfinance'' 0 1 ''abc'' ''RSI'' 5 70 ''15m''
                  ''SPY'' [''2023-01-02'', ''2023-01-24''] ''longonly'' [10, 14]
                  ''sharpe_ratio''))
   \<and> init_cash (pf_config (hd (fst (perform_backtest (demo_ext 400) ''yfinance'' 0 1 ''abc''
         ''RSI'' 5 70 ''15m'' ''SPY'' [''2023-01-02'', ''2023-01-24''] ''longonly'' [10, 14]
         ''sharpe_ratio'')))) = 100
   \<and> fees (pf_config (hd (fst (perform_backtest (demo_ext 400) ''yfinance'' 0 1 ''abc''
         ''RSI'' 5 70 ''15m'' ''SPY'' [''2023-01-02'', ''2023-01-24''] ''longonly'' [10, 14]
         ''sharpe_ratio'')))) = 0
   \<and> slippage (pf_config (hd (fst (perform_backtest (demo_ext 400) ''yfinance'' 0 1 ''abc''
         ''RSI'' 5 70 ''15m'' ''SPY'' [''2023-01-02'', ''2023-01-24''] ''longonly'' [10, 14]
         ''sharpe_ratio'')))) = 0"
proof -
  let ?run = "perform_backtest (demo_ext 400) ''yfinance'' 0 1 ''abc'' ''RSI'' 5 70 ''15m''
              ''SPY'' [''2023-01-02'', ''2023-01-24''] ''longonly'' [10, 14] ''sharpe_ratio''"
  have m: "hd (fst ?run) \<in> set (fst ?run)"
    unfolding demo_run_rsi by simp
  from fixed_trading_configuration[OF m] m show ?thesis by simp
qed

end
